theory Spec2Isabelle
  imports Complex_Main "HOL-Library.Word"
begin

section \<open>FaceAlignment: option parsing, overlays and hard-case mining\<close>

text \<open>
  A shallow embedding of \<^verbatim>\<open>src/FaceAlignment.cpp\<close>: \<^verbatim>\<open>parseOptions\<close>, \<^verbatim>\<open>show\<close> and
  \<^verbatim>\<open>save\<close>. The types \<^verbatim>\<open>FaceAnnotation\<close>, \<^verbatim>\<open>FacePart\<close>, \<^verbatim>\<open>FaceLandmark\<close> and
  \<^verbatim>\<open>ErrorMeasure\<close> are declared in headers that are not part of the sources; they are
  modelled with the fields this file reads. \<^verbatim>\<open>getNormalizedErrors\<close> is implemented
  elsewhere and is a parameter of the model. The report writer \<^verbatim>\<open>evaluate\<close> is left
  out: no result below is about it.
\<close>

subsection \<open>Floating-point values\<close>

text \<open>
  A C++ \<^verbatim>\<open>float\<close> or \<^verbatim>\<open>double\<close> is a finite number, an infinity or a NaN: IEEE 754
  binary32 and binary64, every operation rounded to the format of its type, to the
  nearest value with ties to even. Every ordered comparison with a NaN is false, and
  \<^verbatim>\<open>0.0 / 0.0\<close> is a NaN. The sign of a zero is not modelled: it changes no comparison,
  and the only zero divisor of the program is the conversion of the unsigned
  \<^verbatim>\<open>errors.size()\<close>, a positive zero.
\<close>

datatype fp = Fin real | PInf | NInf | NaN

fun fp_less :: "fp \<Rightarrow> fp \<Rightarrow> bool" where
  "fp_less NaN _ = False"
| "fp_less _ NaN = False"
| "fp_less (Fin a) (Fin b) = (a < b)"
| "fp_less (Fin _) PInf = True"
| "fp_less NInf (Fin _) = True"
| "fp_less NInf PInf = True"
| "fp_less _ _ = False"

definition fp_greater :: "fp \<Rightarrow> fp \<Rightarrow> bool" where
  "fp_greater a b = fp_less b a"

text \<open>The nearest integer, the even one of two that are equally near.\<close>

definition rne :: "real \<Rightarrow> int" where
  "rne x = (let f = \<lfloor>x\<rfloor>; d = x - of_int f
            in if d < 1 / 2 then f else if 1 / 2 < d then f + 1 else if even f then f else f + 1)"

text \<open>
  The binary exponent of \<open>a > 0\<close> within the exponents of the format: the \<open>e\<close> with
  \<open>2 ^ e \<le> a < 2 ^ (e + 1)\<close>, found from 0 upwards for \<open>a \<ge> 1\<close> and downwards otherwise,
  and no greater than \<open>emax\<close> nor less than \<open>emin\<close> (the exponent of the subnormal
  numbers).
\<close>

fun exp_up :: "real \<Rightarrow> int \<Rightarrow> nat \<Rightarrow> int" where
  "exp_up a e k = (if k = 0 then e else if 2 powi (e + 1) \<le> a then exp_up a (e + 1) (k - 1) else e)"

fun exp_down :: "real \<Rightarrow> int \<Rightarrow> nat \<Rightarrow> int" where
  "exp_down a e k = (if k = 0 then e else if 2 powi e \<le> a then e else exp_down a (e - 1) (k - 1))"

declare exp_up.simps [simp del] exp_down.simps [simp del]

definition exponent :: "int \<Rightarrow> int \<Rightarrow> real \<Rightarrow> int" where
  "exponent emin emax a = (if 1 \<le> a then exp_up a 0 (nat emax) else exp_down a 0 (nat (- emin)))"

text \<open>
  Rounding a real number to the format of precision \<open>p\<close> (the bits of the significand)
  and exponents \<open>emin\<close> to \<open>emax\<close>: to the nearest multiple of the unit in the last
  place of its exponent, and to an infinity when that is \<open>2 ^ (emax + 1)\<close> or more.
\<close>

definition round_to :: "nat \<Rightarrow> int \<Rightarrow> int \<Rightarrow> real \<Rightarrow> fp" where
  "round_to p emin emax x =
     (if x = 0 then Fin 0
      else let e = exponent emin emax \<bar>x\<bar>;
               q = 2 powi (e - int p + 1);
               y = of_int (rne (x / q)) * q
           in if 2 powi (emax + 1) \<le> \<bar>y\<bar> then (if 0 < x then PInf else NInf) else Fin y)"

definition round32 :: "real \<Rightarrow> fp" where
  "round32 = round_to 24 (- 126) 127"

definition round64 :: "real \<Rightarrow> fp" where
  "round64 = round_to 53 (- 1022) 1023"

text \<open>
  The three operations of line 214: the addition of two \<^verbatim>\<open>double\<close> values, the
  conversion of a \<^verbatim>\<open>double\<close> to \<^verbatim>\<open>float\<close>, and the division of two \<^verbatim>\<open>float\<close> values.
\<close>

fun fp_add :: "fp \<Rightarrow> fp \<Rightarrow> fp" where
  "fp_add NaN _ = NaN"
| "fp_add _ NaN = NaN"
| "fp_add (Fin a) (Fin b) = round64 (a + b)"
| "fp_add PInf NInf = NaN"
| "fp_add NInf PInf = NaN"
| "fp_add PInf _ = PInf"
| "fp_add _ PInf = PInf"
| "fp_add NInf _ = NInf"
| "fp_add _ NInf = NInf"

fun to_float :: "fp \<Rightarrow> fp" where
  "to_float (Fin x) = round32 x"
| "to_float PInf = PInf"
| "to_float NInf = NInf"
| "to_float NaN = NaN"

fun fp_div :: "fp \<Rightarrow> fp \<Rightarrow> fp" where
  "fp_div NaN _ = NaN"
| "fp_div _ NaN = NaN"
| "fp_div (Fin a) (Fin b) =
     (if b = 0 then (if a = 0 then NaN else if 0 < a then PInf else NInf)
      else round32 (a / b))"
| "fp_div (Fin _) _ = Fin 0"
| "fp_div PInf (Fin b) = (if 0 \<le> b then PInf else NInf)"
| "fp_div NInf (Fin b) = (if 0 \<le> b then NInf else PInf)"
| "fp_div _ _ = NaN"

subsection \<open>The component's state and \<^verbatim>\<open>parseOptions\<close>\<close>

datatype ErrorMeasure = pupils | corners | height | diagonal

text \<open>The members \<^verbatim>\<open>_measure\<close> and \<^verbatim>\<open>_database\<close> of the class.\<close>

record FaceAlignment =
  m_measure :: ErrorMeasure
  m_database :: string

text \<open>
  \<^verbatim>\<open>po::store\<close> fills the variables map: an option given on the command line has its
  value, an option left out has its \<^verbatim>\<open>default_value\<close>. The command line is modelled by
  what it gives for \<^verbatim>\<open>--measure\<close> and \<^verbatim>\<open>--database\<close>; unregistered options are
  allowed and ignored by the parser.
\<close>

definition vm_store :: "string \<Rightarrow> string option \<Rightarrow> string option" where
  "vm_store default_value given = (case given of None \<Rightarrow> Some default_value | Some s \<Rightarrow> Some s)"

definition parseOptions :: "FaceAlignment \<Rightarrow> string option \<Rightarrow> string option \<Rightarrow> FaceAlignment" where
  "parseOptions this arg_measure arg_database =
     (let vm_measure = vm_store ''height'' arg_measure;
          vm_database = vm_store ''aflw'' arg_database;
          measure_str = (case vm_measure of Some s \<Rightarrow> s | None \<Rightarrow> []);
          this1 = this\<lparr>m_measure :=
            (if measure_str = ''pupils'' then pupils
             else if measure_str = ''corners'' then corners
             else if measure_str = ''height'' then height
             else diagonal)\<rparr>
      in (case vm_database of Some s \<Rightarrow> this1\<lparr>m_database := s\<rparr> | None \<Rightarrow> this1))"

subsection \<open>The hard-case threshold of \<^verbatim>\<open>save\<close>\<close>

text \<open>Lines 178 to 184: four assignments in sequence, each overwriting the one before.\<close>

definition save_threshold :: "FaceAlignment \<Rightarrow> fp" where
  "save_threshold this =
     (let threshold = Fin 8;
          threshold = (if m_database this = ''wflw'' then Fin 10 else threshold);
          threshold = (if m_measure this = height then Fin 4 else threshold);
          threshold = (if m_measure this = diagonal then Fin 3 else threshold)
      in threshold)"

subsection \<open>Annotations and drawing\<close>

text \<open>
  A landmark, a part and an annotation, with the members the file reads
  (\<^verbatim>\<open>ann.bbox.pos.height\<close> is \<open>bbox_height\<close>). Drawing is an external primitive: an
  image (\<open>img\<close> for the variable \<^verbatim>\<open>image\<close>) is the file it was decoded from and the
  sequence of primitives drawn on it since, and the viewer of \<^verbatim>\<open>show\<close> (here
  \<open>show_faces\<close>) is the sequence of primitives it was sent.
\<close>

type_synonym Point = "real \<times> real"

type_synonym Scalar = "nat \<times> nat \<times> nat"

record FaceLandmark =
  feature_idx :: nat
  pos :: Point
  occluded :: fp

record FacePart =
  landmarks :: "FaceLandmark list"

record FaceAnnotation =
  filename :: string
  bbox_height :: real
  parts :: "FacePart list"

text \<open>
  \<open>Line pt1 pt2 color thickness\<close>, \<open>Circle center radius color thickness\<close> and
  \<open>PutText err color\<close>; the text drawn is \<^verbatim>\<open>std::to_string(err)\<close>, kept as the value it
  prints (the position and the font of the text are constants of the call).
\<close>

datatype Draw =
  is_Line: Line Point Point Scalar int
| Circle Point int Scalar int
| PutText fp Scalar

record Mat =
  source :: string
  overlay :: "Draw list"

definition imread :: "string \<Rightarrow> Mat" where
  "imread fname = \<lparr>source = fname, overlay = []\<rparr>"

definition draw_on :: "Mat \<Rightarrow> Draw list \<Rightarrow> Mat" where
  "draw_on img prims = img\<lparr>overlay := overlay img @ prims\<rparr>"

definition cyan_color :: Scalar where "cyan_color = (255, 122, 0)"
definition blue_color :: Scalar where "blue_color = (255, 0, 0)"
definition green_color :: Scalar where "green_color = (0, 255, 0)"
definition red_color :: Scalar where "red_color = (0, 0, 255)"

text \<open>
  \<^verbatim>\<open>roundf\<close> rounds halves away from zero. Radius and thickness are computed in exact
  arithmetic here (lines 78, 79, 185 and 186); no result below depends on them.
\<close>

definition roundf :: "real \<Rightarrow> int" where
  "roundf x = (if 0 \<le> x then \<lfloor>x + 1 / 2\<rfloor> else \<lceil>x - 1 / 2\<rceil>)"

definition marker_radius :: "FaceAnnotation \<Rightarrow> int" where
  "marker_radius ann = max (roundf (bbox_height ann * (1 / 100))) 3"

definition marker_thickness :: "FaceAnnotation \<Rightarrow> int" where
  "marker_thickness ann = max (roundf (bbox_height ann * (5 / 1000))) 2"

text \<open>
  The loop over the landmarks of one part. The file has it four times (lines 84 to 92,
  98 to 106, 190 to 198 and 202 to 210), the same but for the two colours: \<open>vis\<close> is
  the colour of the first branch, \<open>occ\<close> the colour of the \<^verbatim>\<open>else\<close>. The iterator
  \<^verbatim>\<open>next\<close> is one ahead of \<^verbatim>\<open>it\<close>; the line is drawn when \<^verbatim>\<open>next\<close> is not the end,
  then the circle of \<^verbatim>\<open>it\<close>.
\<close>

fun draw_landmarks :: "Scalar \<Rightarrow> Scalar \<Rightarrow> int \<Rightarrow> int \<Rightarrow> FaceLandmark list \<Rightarrow> Draw list" where
  "draw_landmarks vis occ radius thickness [] = []"
| "draw_landmarks vis occ radius thickness [it] =
     [Circle (pos it) radius (if fp_less (occluded it) (Fin (1 / 2)) then vis else occ) (- 1)]"
| "draw_landmarks vis occ radius thickness (it # next # rest) =
     Line (pos it) (pos next)
       (if fp_less (occluded it) (Fin (1 / 2)) \<or> fp_less (occluded next) (Fin (1 / 2))
        then vis else occ) thickness
     # Circle (pos it) radius (if fp_less (occluded it) (Fin (1 / 2)) then vis else occ) (- 1)
     # draw_landmarks vis occ radius thickness (next # rest)"

definition draw_parts :: "Scalar \<Rightarrow> Scalar \<Rightarrow> int \<Rightarrow> int \<Rightarrow> FacePart list \<Rightarrow> Draw list" where
  "draw_parts vis occ radius thickness ps =
     concat (map (\<lambda>part. draw_landmarks vis occ radius thickness (landmarks part)) ps)"

definition show_faces :: "Draw list \<Rightarrow> FaceAnnotation list \<Rightarrow> FaceAnnotation \<Rightarrow> Draw list" where
  "show_faces viewer faces ann =
     (let radius = marker_radius ann;
          thickness = marker_thickness ann;
          viewer = viewer @ draw_parts cyan_color blue_color radius thickness (parts ann)
      in viewer @ concat (map (\<lambda>face. draw_parts green_color red_color radius thickness (parts face)) faces))"

text \<open>
  The comparison of the specification, \<open>a \<ge> b\<close> on floating-point values, for the
  statements below; the code only uses \<open><\<close> and \<open>>\<close>.
\<close>

definition fp_ge :: "fp \<Rightarrow> fp \<Rightarrow> bool" where
  "fp_ge a b = (a \<noteq> NaN \<and> b \<noteq> NaN \<and> \<not> fp_less a b)"

subsection \<open>The mean error of a face\<close>

text \<open>
  Line 214: \<^verbatim>\<open>std::accumulate\<close> from the \<^verbatim>\<open>double\<close> \<^verbatim>\<open>0.0\<close> adds the errors from the
  left, each addition in \<^verbatim>\<open>double\<close> (the conversion of a \<^verbatim>\<open>float\<close> error to \<^verbatim>\<open>double\<close>
  is exact); the sum is converted to \<^verbatim>\<open>float\<close> and divided, in \<^verbatim>\<open>float\<close>, by
  \<^verbatim>\<open>errors.size()\<close> converted to \<^verbatim>\<open>float\<close>. There is no test for an empty sequence.
\<close>

fun accumulate :: "fp list \<Rightarrow> fp \<Rightarrow> fp" where
  "accumulate [] init = init"
| "accumulate (x # xs) init = accumulate xs (fp_add init x)"

definition mean_error :: "fp list \<Rightarrow> fp" where
  "mean_error errors =
     fp_div (to_float (accumulate errors (Fin 0))) (round32 (real (length errors)))"

subsection \<open>The name of a hard case\<close>

text \<open>
  \<^verbatim>\<open>std::to_string\<close> of an \<^verbatim>\<open>unsigned int\<close>: its decimal digits.
\<close>

definition digit_char :: "nat \<Rightarrow> char" where
  "digit_char d = ''0123456789'' ! d"

fun to_string_nat :: "nat \<Rightarrow> string" where
  "to_string_nat n =
     (if n < 10 then [digit_char n] else to_string_nat (n div 10) @ [digit_char (n mod 10)])"

declare to_string_nat.simps [simp del]

definition to_string :: "32 word \<Rightarrow> string" where
  "to_string num = to_string_nat (unat num)"

text \<open>
  \<^verbatim>\<open>find_last_of\<close> gives the position of the last occurrence of the character, or
  \<^verbatim>\<open>npos\<close> (here \<open>None\<close>). \<^verbatim>\<open>substr(found+1)\<close> is the rest of the string from there on;
  \<^verbatim>\<open>npos + 1\<close> wraps around to 0 in \<^verbatim>\<open>size_t\<close>, so the whole string is taken when the
  character does not occur. The position is never past the end, so \<^verbatim>\<open>substr\<close> does
  not throw.
\<close>

primrec find_last_of :: "string \<Rightarrow> char \<Rightarrow> nat option" where
  "find_last_of [] c = None"
| "find_last_of (x # xs) c =
     (case find_last_of xs c of
        Some i \<Rightarrow> Some (Suc i)
      | None \<Rightarrow> if x = c then Some 0 else None)"

definition substr_found_plus_1 :: "string \<Rightarrow> nat option \<Rightarrow> string" where
  "substr_found_plus_1 s found = (case found of None \<Rightarrow> drop 0 s | Some i \<Rightarrow> drop (i + 1) s)"

text \<open>
  The loop of lines 221 to 227, with \<open>file_exists\<close> for \<^verbatim>\<open>boost::filesystem::exists\<close> and
  \<open>name\<close> the substring of the file name, which does not change in the loop. The
  counter is an \<^verbatim>\<open>unsigned int\<close>: \<open>num + 1\<close> wraps around at \<open>2 ^ 32\<close>. The result is
  \<open>None\<close> when the loop does not end.
\<close>

partial_function (option) probe :: "(string \<Rightarrow> bool) \<Rightarrow> string \<Rightarrow> string \<Rightarrow> 32 word \<Rightarrow> string option" where
  "probe file_exists dirpath name num =
     (let filepath = dirpath @ to_string num @ ''_'' @ name;
          num' = num + 1
      in if file_exists filepath then probe file_exists dirpath name num' else Some filepath)"

declare probe.simps [code]

subsection \<open>\<^verbatim>\<open>save\<close>\<close>

text \<open>
  The file system maps a path to the image stored there: a file exists at the paths
  of its domain, and \<^verbatim>\<open>cv::imwrite\<close>, taken to succeed, stores the image at the path.
  \<open>getNormalizedErrors\<close> gives the indices and the errors of a predicted face against
  the ground truth; \<^verbatim>\<open>save\<close> reads the errors only.
\<close>

type_synonym FileSystem = "string \<rightharpoonup> Mat"

definition fs_exists :: "FileSystem \<Rightarrow> string \<Rightarrow> bool" where
  "fs_exists fs filepath = (fs filepath \<noteq> None)"

type_synonym NormalizedErrors = "FaceAnnotation \<Rightarrow> FaceAnnotation \<Rightarrow> ErrorMeasure \<Rightarrow> nat list \<times> fp list"

text \<open>One iteration of the loop over the predicted faces (lines 201 to 229).\<close>

definition save_face ::
  "NormalizedErrors \<Rightarrow> FaceAlignment \<Rightarrow> string \<Rightarrow> FaceAnnotation \<Rightarrow> fp \<Rightarrow> int \<Rightarrow> int \<Rightarrow>
   Mat \<times> FileSystem \<Rightarrow> FaceAnnotation \<Rightarrow> (Mat \<times> FileSystem) option" where
  "save_face getNormalizedErrors this dirpath ann threshold radius thickness st face =
     (let img = draw_on (fst st) (draw_parts green_color red_color radius thickness (parts face));
          errors = snd (getNormalizedErrors face ann (m_measure this));
          err = mean_error errors;
          img = draw_on img [PutText err red_color]
      in if fp_greater err threshold then
           (let found = find_last_of (filename face) CHR ''/''
            in case probe (fs_exists (snd st)) dirpath (substr_found_plus_1 (filename face) found) 0 of
                 None \<Rightarrow> None
               | Some filepath \<Rightarrow> Some (img, (snd st)(filepath \<mapsto> img)))
         else Some (img, snd st))"

fun save_faces ::
  "NormalizedErrors \<Rightarrow> FaceAlignment \<Rightarrow> string \<Rightarrow> FaceAnnotation \<Rightarrow> fp \<Rightarrow> int \<Rightarrow> int \<Rightarrow>
   Mat \<times> FileSystem \<Rightarrow> FaceAnnotation list \<Rightarrow> (Mat \<times> FileSystem) option" where
  "save_faces getNormalizedErrors this dirpath ann threshold radius thickness st [] = Some st"
| "save_faces getNormalizedErrors this dirpath ann threshold radius thickness st (face # faces) =
     (case save_face getNormalizedErrors this dirpath ann threshold radius thickness st face of
        None \<Rightarrow> None
      | Some st' \<Rightarrow> save_faces getNormalizedErrors this dirpath ann threshold radius thickness st' faces)"

text \<open>
  \<^verbatim>\<open>save\<close>: the image is decoded once, before the loop over the predicted faces, and
  the ground truth is drawn on it. The result is the image and the file system when
  the call returns.
\<close>

definition save ::
  "NormalizedErrors \<Rightarrow> FaceAlignment \<Rightarrow> string \<Rightarrow> FaceAnnotation list \<Rightarrow> FaceAnnotation \<Rightarrow>
   FileSystem \<Rightarrow> (Mat \<times> FileSystem) option" where
  "save getNormalizedErrors this dirpath faces ann fs =
     (let threshold = save_threshold this;
          radius = marker_radius ann;
          thickness = marker_thickness ann;
          img = imread (filename ann);
          img = draw_on img (draw_parts cyan_color blue_color radius thickness (parts ann))
      in save_faces getNormalizedErrors this dirpath ann threshold radius thickness (img, fs) faces)"

text \<open>
  For the statements below: what one iteration draws for a face, and whether the face
  is a hard case.
\<close>

definition face_overlay ::
  "NormalizedErrors \<Rightarrow> FaceAlignment \<Rightarrow> FaceAnnotation \<Rightarrow> int \<Rightarrow> int \<Rightarrow> FaceAnnotation \<Rightarrow> Draw list" where
  "face_overlay getNormalizedErrors this ann radius thickness face =
     draw_parts green_color red_color radius thickness (parts face)
     @ [PutText (mean_error (snd (getNormalizedErrors face ann (m_measure this)))) red_color]"

definition is_hard :: "NormalizedErrors \<Rightarrow> FaceAlignment \<Rightarrow> FaceAnnotation \<Rightarrow> fp \<Rightarrow> FaceAnnotation \<Rightarrow> bool" where
  "is_hard getNormalizedErrors this ann threshold face =
     fp_greater (mean_error (snd (getNormalizedErrors face ann (m_measure this)))) threshold"

text \<open>The paths of a list that has, for every face in turn, the path written for it or none.\<close>

fun paths_of :: "string option list \<Rightarrow> string list" where
  "paths_of [] = []"
| "paths_of (None # ws) = paths_of ws"
| "paths_of (Some p # ws) = p # paths_of ws"

text \<open>
  The path the probing loop forms for the counter value \<open>n\<close> and the file name
  \<open>fname\<close> (line 224).
\<close>

definition hard_case_path :: "string \<Rightarrow> nat \<Rightarrow> string \<Rightarrow> string" where
  "hard_case_path dirpath n fname =
     dirpath @ to_string_nat n @ ''_'' @ substr_found_plus_1 fname (find_last_of fname CHR ''/'')"

text \<open>The image stored at a path when a call of \<^verbatim>\<open>save\<close> has returned.\<close>

definition persisted :: "(Mat \<times> FileSystem) option \<Rightarrow> string \<Rightarrow> Mat option" where
  "persisted result filepath = (case result of None \<Rightarrow> None | Some st \<Rightarrow> snd st filepath)"

text \<open>
  The image of the specification's image annotator for one predicted face: a freshly
  decoded copy of the source image with the ground truth, that face's skeleton and that
  face's mean error.
\<close>

definition annotated_fresh :: "NormalizedErrors \<Rightarrow> FaceAlignment \<Rightarrow> FaceAnnotation \<Rightarrow> FaceAnnotation \<Rightarrow> Mat" where
  "annotated_fresh getNormalizedErrors this ann face =
     draw_on (imread (filename ann))
       (draw_parts cyan_color blue_color (marker_radius ann) (marker_thickness ann) (parts ann)
        @ face_overlay getNormalizedErrors this ann (marker_radius ann) (marker_thickness ann) face)"

subsection \<open>Example inputs\<close>

text \<open>A visible landmark and two occluded ones, for the concrete instances below.\<close>

definition lm_visible :: FaceLandmark where
  "lm_visible = \<lparr>feature_idx = 1, pos = (0, 0), occluded = Fin 0\<rparr>"

definition lm_occluded :: FaceLandmark where
  "lm_occluded = \<lparr>feature_idx = 2, pos = (10, 0), occluded = Fin 1\<rparr>"

definition lm_occluded2 :: FaceLandmark where
  "lm_occluded2 = \<lparr>feature_idx = 3, pos = (10, 10), occluded = Fin 1\<rparr>"

text \<open>
  An error computer for the instances: the error of a predicted landmark is its
  abscissa, so a face without landmarks has no errors. With the default options the
  threshold is 4.0.
\<close>

definition ex_errors :: NormalizedErrors where
  "ex_errors face ann m =
     (map feature_idx (concat (map landmarks (parts face))),
      map (\<lambda>l. Fin (fst (pos l))) (concat (map landmarks (parts face))))"

definition ex_this :: FaceAlignment where
  "ex_this = \<lparr>m_measure = height, m_database = ''aflw''\<rparr>"

text \<open>
  A ground truth of one landmark and four predicted faces for it: two with a mean
  error above the threshold, one below, and one without landmarks.
\<close>

definition ex_ann :: FaceAnnotation where
  "ex_ann = \<lparr>filename = ''faces/a.png'', bbox_height = 100, parts = [\<lparr>landmarks = [lm_visible]\<rparr>]\<rparr>"

definition ex_face_far :: FaceAnnotation where
  "ex_face_far = \<lparr>filename = ''faces/a.png'', bbox_height = 100,
     parts = [\<lparr>landmarks = [\<lparr>feature_idx = 1, pos = (20, 0), occluded = Fin 0\<rparr>]\<rparr>]\<rparr>"

definition ex_face_farther :: FaceAnnotation where
  "ex_face_farther = \<lparr>filename = ''faces/a.png'', bbox_height = 100,
     parts = [\<lparr>landmarks = [\<lparr>feature_idx = 1, pos = (30, 0), occluded = Fin 0\<rparr>]\<rparr>]\<rparr>"

definition ex_face_near :: FaceAnnotation where
  "ex_face_near = \<lparr>filename = ''faces/a.png'', bbox_height = 100,
     parts = [\<lparr>landmarks = [\<lparr>feature_idx = 1, pos = (1, 0), occluded = Fin 0\<rparr>]\<rparr>]\<rparr>"

definition ex_face_empty :: FaceAnnotation where
  "ex_face_empty = \<lparr>filename = ''faces/a.png'', bbox_height = 100, parts = []\<rparr>"

text \<open>
  Three predicted faces with more than one error: with the mean 5, above the threshold;
  with the mean 3.5, below it, and the sum 7; and with \<^verbatim>\<open>4.0f\<close>, \<^verbatim>\<open>4.0f\<close> and the next
  \<^verbatim>\<open>float\<close> after \<^verbatim>\<open>4.0f\<close>, which is \<open>4 + 1 / 2 ^ 21 = 8388609 / 2097152\<close>; their sum
  is rounded to \<^verbatim>\<open>12.0f\<close>.
\<close>

definition ex_face_pair_high :: FaceAnnotation where
  "ex_face_pair_high = \<lparr>filename = ''faces/a.png'', bbox_height = 100,
     parts = [\<lparr>landmarks = [\<lparr>feature_idx = 1, pos = (2, 0), occluded = Fin 0\<rparr>,
                             \<lparr>feature_idx = 2, pos = (8, 0), occluded = Fin 0\<rparr>]\<rparr>]\<rparr>"

definition ex_face_pair_low :: FaceAnnotation where
  "ex_face_pair_low = \<lparr>filename = ''faces/a.png'', bbox_height = 100,
     parts = [\<lparr>landmarks = [\<lparr>feature_idx = 1, pos = (3, 0), occluded = Fin 0\<rparr>,
                             \<lparr>feature_idx = 2, pos = (4, 0), occluded = Fin 0\<rparr>]\<rparr>]\<rparr>"

definition ex_face_tie :: FaceAnnotation where
  "ex_face_tie = \<lparr>filename = ''faces/a.png'', bbox_height = 100,
     parts = [\<lparr>landmarks = [\<lparr>feature_idx = 1, pos = (4, 0), occluded = Fin 0\<rparr>,
                             \<lparr>feature_idx = 2, pos = (4, 0), occluded = Fin 0\<rparr>,
                             \<lparr>feature_idx = 3, pos = (8388609 / 2097152, 0), occluded = Fin 0\<rparr>]\<rparr>]\<rparr>"

text \<open>
  The image of \<^verbatim>\<open>save\<close> for \<open>ex_ann\<close> after the ground truth, after the face
  \<open>ex_face_far\<close>, and after a second face.
\<close>

definition ex_img_gt :: Mat where
  "ex_img_gt = \<lparr>source = ''faces/a.png'', overlay = [Circle (0, 0) 3 cyan_color (- 1)]\<rparr>"

definition ex_img_far :: Mat where
  "ex_img_far = \<lparr>source = ''faces/a.png'', overlay =
     [Circle (0, 0) 3 cyan_color (- 1),
      Circle (20, 0) 3 green_color (- 1), PutText (Fin 20) red_color]\<rparr>"

definition ex_img_far_near :: Mat where
  "ex_img_far_near = \<lparr>source = ''faces/a.png'', overlay =
     [Circle (0, 0) 3 cyan_color (- 1),
      Circle (20, 0) 3 green_color (- 1), PutText (Fin 20) red_color,
      Circle (1, 0) 3 green_color (- 1), PutText (Fin 1) red_color]\<rparr>"

definition ex_img_far_farther :: Mat where
  "ex_img_far_farther = \<lparr>source = ''faces/a.png'', overlay =
     [Circle (0, 0) 3 cyan_color (- 1),
      Circle (20, 0) 3 green_color (- 1), PutText (Fin 20) red_color,
      Circle (30, 0) 3 green_color (- 1), PutText (Fin 30) red_color]\<rparr>"

text \<open>The image after the three faces with more than one error, one after the other.\<close>

definition ex_img_high :: Mat where
  "ex_img_high = \<lparr>source = ''faces/a.png'', overlay =
     [Circle (0, 0) 3 cyan_color (- 1),
      Line (2, 0) (8, 0) green_color 2, Circle (2, 0) 3 green_color (- 1),
      Circle (8, 0) 3 green_color (- 1), PutText (Fin 5) red_color]\<rparr>"

definition ex_img_high_low :: Mat where
  "ex_img_high_low = \<lparr>source = ''faces/a.png'', overlay =
     [Circle (0, 0) 3 cyan_color (- 1),
      Line (2, 0) (8, 0) green_color 2, Circle (2, 0) 3 green_color (- 1),
      Circle (8, 0) 3 green_color (- 1), PutText (Fin 5) red_color,
      Line (3, 0) (4, 0) green_color 2, Circle (3, 0) 3 green_color (- 1),
      Circle (4, 0) 3 green_color (- 1), PutText (Fin (7 / 2)) red_color]\<rparr>"

definition ex_img_high_low_tie :: Mat where
  "ex_img_high_low_tie = \<lparr>source = ''faces/a.png'', overlay =
     [Circle (0, 0) 3 cyan_color (- 1),
      Line (2, 0) (8, 0) green_color 2, Circle (2, 0) 3 green_color (- 1),
      Circle (8, 0) 3 green_color (- 1), PutText (Fin 5) red_color,
      Line (3, 0) (4, 0) green_color 2, Circle (3, 0) 3 green_color (- 1),
      Circle (4, 0) 3 green_color (- 1), PutText (Fin (7 / 2)) red_color,
      Line (4, 0) (4, 0) green_color 2, Circle (4, 0) 3 green_color (- 1),
      Line (4, 0) (8388609 / 2097152, 0) green_color 2, Circle (4, 0) 3 green_color (- 1),
      Circle (8388609 / 2097152, 0) 3 green_color (- 1), PutText (Fin 4) red_color]\<rparr>"

text \<open>
  A file system with one file, and one in which a file exists at every path the
  probing loop can form for \<open>dirpath\<close> and \<open>name\<close>: one for each of the \<open>2 ^ 32\<close>
  values of the counter.
\<close>

definition one_file :: FileSystem where
  "one_file = [''out/0_a.png'' \<mapsto> imread ''faces/b.png'']"

definition full_directory :: "string \<Rightarrow> string \<Rightarrow> FileSystem" where
  "full_directory dirpath name filepath =
     (if filepath \<in> range (\<lambda>num. dirpath @ to_string num @ ''_'' @ name)
      then Some (imread filepath) else None)"

section \<open>Results\<close>

subsection \<open>Option parsing\<close>

text \<open>
  C4, as stated: a measure string outside pupils, corners, height and diagonal selects
  the measure height. It does not: the last branch of the conditional chain of
  \<^verbatim>\<open>parseOptions\<close> is diagonal, as for the string foo.
\<close>

theorem parseOptions_unknown_not_height:
  "''foo'' \<notin> {''pupils'', ''corners'', ''height'', ''diagonal''} \<and>
   m_measure (parseOptions \<lparr>m_measure = pupils, m_database = []\<rparr> (Some ''foo'') None) \<noteq> height"
  by (simp add: parseOptions_def vm_store_def)

text \<open>
  C4, amended: for every measure string outside pupils, corners, height and diagonal,
  option parsing completes and selects the measure diagonal; height is what an absent
  option selects, through its default value.
\<close>

theorem parseOptions_unknown_is_diagonal:
  "s \<notin> {''pupils'', ''corners'', ''height'', ''diagonal''} \<Longrightarrow>
     m_measure (parseOptions this (Some s) db) = diagonal \<and>
     m_measure (parseOptions this None db) = height"
  by (simp add: parseOptions_def vm_store_def split: option.split)

theorem parseOptions_unknown_is_diagonal_witness:
  "''foo'' \<notin> {''pupils'', ''corners'', ''height'', ''diagonal''} \<and>
   m_measure (parseOptions \<lparr>m_measure = pupils, m_database = []\<rparr> (Some ''foo'') (Some ''wflw'')) = diagonal \<and>
   m_measure (parseOptions \<lparr>m_measure = pupils, m_database = []\<rparr> None (Some ''wflw'')) = height"
proof -
  have h: "''foo'' \<notin> {''pupils'', ''corners'', ''height'', ''diagonal''}" by simp
  show ?thesis
    using h parseOptions_unknown_is_diagonal [OF h, of "\<lparr>m_measure = pupils, m_database = []\<rparr>" "Some ''wflw''"]
    by simp
qed

subsection \<open>Threshold selection\<close>

text \<open>
  C1, as stated: whenever the dataset is wflw the threshold is 10.0, whatever the
  measure. With the measure height (the default) and the dataset wflw the code selects
  4.0: the later assignments overwrite the dataset's.
\<close>

theorem save_threshold_wflw_height:
  "save_threshold \<lparr>m_measure = height, m_database = ''wflw''\<rparr> \<noteq> Fin 10"
  by (simp add: save_threshold_def)

text \<open>
  C1, amended: the threshold is selected by first match in the order measure diagonal
  gives 3.0, measure height gives 4.0, dataset wflw gives 10.0, else 8.0; with the
  dataset wflw the threshold is 10.0 exactly when the measure is pupils or corners.
\<close>

theorem save_threshold_precedence:
  "save_threshold this =
     (if m_measure this = diagonal then Fin 3
      else if m_measure this = height then Fin 4
      else if m_database this = ''wflw'' then Fin 10
      else Fin 8) \<and>
   (m_database this = ''wflw'' \<longrightarrow>
      (save_threshold this = Fin 10) = (m_measure this = pupils \<or> m_measure this = corners))"
  by (cases "m_measure this") (simp_all add: save_threshold_def)

theorem save_threshold_precedence_witness:
  "save_threshold \<lparr>m_measure = pupils, m_database = ''wflw''\<rparr> = Fin 10 \<and>
   save_threshold \<lparr>m_measure = height, m_database = ''wflw''\<rparr> = Fin 4"
  using save_threshold_precedence [of "\<lparr>m_measure = pupils, m_database = ''wflw''\<rparr>"]
        save_threshold_precedence [of "\<lparr>m_measure = height, m_database = ''wflw''\<rparr>"]
  by simp

subsection \<open>Edge colouring\<close>

lemma filter_lines_draw_landmarks:
  "filter is_Line (draw_landmarks vis occ radius thickness ls) =
     map (\<lambda>(a, b). Line (pos a) (pos b)
            (if \<not> fp_less (occluded a) (Fin (1 / 2)) \<and> \<not> fp_less (occluded b) (Fin (1 / 2))
             then occ else vis) thickness)
       (zip ls (tl ls))"
  by (induction vis occ radius thickness ls rule: draw_landmarks.induct) auto

lemma not_less_half_iff_ge: "x \<noteq> NaN \<Longrightarrow> (\<not> fp_less x (Fin (1 / 2))) = fp_ge x (Fin (1 / 2))"
  by (simp add: fp_ge_def)

text \<open>
  C2, as stated: the edge between two consecutive landmarks has the occluded tone when
  one of them has an occlusion of 0.5 or more. In the ground-truth loop of \<^verbatim>\<open>save\<close>
  the edge from a visible landmark to an occluded one is drawn in cyan, the normal tone.
\<close>

theorem edge_tone_counterexample:
  "fp_ge (occluded lm_occluded) (Fin (1 / 2)) \<and> cyan_color \<noteq> blue_color \<and>
   filter is_Line (draw_landmarks cyan_color blue_color 3 2 [lm_visible, lm_occluded]) =
     [Line (0, 0) (10, 0) cyan_color 2]"
  by (simp add: lm_visible_def lm_occluded_def fp_ge_def cyan_color_def blue_color_def)

text \<open>
  C2, amended: one edge is drawn for every pair of consecutive landmarks of a part, in
  the occluded tone if and only if neither landmark has an occlusion below 0.5, and in
  the normal tone otherwise; for occlusions that are numbers this is: if and only if
  both landmarks have an occlusion of 0.5 or more.
\<close>

theorem edge_tone_occluded_iff_both:
  "filter is_Line (draw_landmarks vis occ radius thickness ls) =
     map (\<lambda>(a, b). Line (pos a) (pos b)
            (if \<not> fp_less (occluded a) (Fin (1 / 2)) \<and> \<not> fp_less (occluded b) (Fin (1 / 2))
             then occ else vis) thickness)
       (zip ls (tl ls)) \<and>
   ((\<forall>l \<in> set ls. occluded l \<noteq> NaN) \<longrightarrow>
      filter is_Line (draw_landmarks vis occ radius thickness ls) =
        map (\<lambda>(a, b). Line (pos a) (pos b)
               (if fp_ge (occluded a) (Fin (1 / 2)) \<and> fp_ge (occluded b) (Fin (1 / 2))
                then occ else vis) thickness)
          (zip ls (tl ls)))"
proof (intro conjI impI)
  show "filter is_Line (draw_landmarks vis occ radius thickness ls) =
     map (\<lambda>(a, b). Line (pos a) (pos b)
            (if \<not> fp_less (occluded a) (Fin (1 / 2)) \<and> \<not> fp_less (occluded b) (Fin (1 / 2))
             then occ else vis) thickness)
       (zip ls (tl ls))"
    by (rule filter_lines_draw_landmarks)
next
  assume number: "\<forall>l \<in> set ls. occluded l \<noteq> NaN"
  have "occluded a \<noteq> NaN \<and> occluded b \<noteq> NaN" if "(a, b) \<in> set (zip ls (tl ls))" for a b
  proof -
    from that have "a \<in> set ls" and "b \<in> set (tl ls)"
      by (auto dest: set_zip_leftD set_zip_rightD)
    with number show ?thesis by (cases ls) auto
  qed
  then show "filter is_Line (draw_landmarks vis occ radius thickness ls) =
        map (\<lambda>(a, b). Line (pos a) (pos b)
               (if fp_ge (occluded a) (Fin (1 / 2)) \<and> fp_ge (occluded b) (Fin (1 / 2))
                then occ else vis) thickness)
          (zip ls (tl ls))"
    unfolding filter_lines_draw_landmarks
    by (intro map_cong refl) (auto simp: not_less_half_iff_ge)
qed

theorem edge_tone_occluded_iff_both_witness:
  "occluded lm_visible \<noteq> NaN \<and> occluded lm_occluded \<noteq> NaN \<and> occluded lm_occluded2 \<noteq> NaN \<and>
   filter is_Line (draw_landmarks green_color red_color 3 2 [lm_visible, lm_occluded, lm_occluded2]) =
     [Line (0, 0) (10, 0) green_color 2, Line (10, 0) (10, 10) red_color 2]"
  using edge_tone_occluded_iff_both [of green_color red_color 3 2 "[lm_visible, lm_occluded, lm_occluded2]"]
  by (simp add: lm_visible_def lm_occluded_def lm_occluded2_def fp_ge_def)

subsection \<open>Rounding\<close>

text \<open>The equations that evaluate a rounding at a number.\<close>

lemmas fp_eval =
  round32_def round64_def round_to_def exponent_def exp_up.simps exp_down.simps rne_def Let_def

text \<open>
  A number in the normal range of a format is rounded with a relative error of at most
  half a unit in the last place, \<open>2 ^ - p\<close>.
\<close>

lemma rne_error: "\<bar>of_int (rne x) - x\<bar> \<le> 1 / 2"
  unfolding rne_def Let_def by (simp; linarith)

lemma rne_of_int: "rne (of_int k) = k"
  by (simp add: rne_def)

lemma exp_up_bounds:
  "2 powi e \<le> a \<Longrightarrow>
     2 powi (exp_up a e k) \<le> a \<and> e \<le> exp_up a e k \<and> exp_up a e k \<le> e + int k \<and>
     (a < 2 powi (exp_up a e k + 1) \<or> exp_up a e k = e + int k)"
proof (induction a e k rule: exp_up.induct)
  case (1 a e k)
  show ?case
  proof (cases "k = 0")
    case True
    with 1(2) show ?thesis by (subst (1 2 3 4 5) exp_up.simps) simp
  next
    case False
    show ?thesis
    proof (cases "2 powi (e + 1) \<le> a")
      case True
      from 1(1) [OF False True True] False True show ?thesis
        by (subst (1 2 3 4 5) exp_up.simps) (auto simp: of_nat_diff)
    next
      case no: False
      with False 1(2) show ?thesis by (subst (1 2 3 4 5) exp_up.simps) simp
    qed
  qed
qed

lemma exp_down_bounds:
  "a < 2 powi (e + 1) \<Longrightarrow>
     a < 2 powi (exp_down a e k + 1) \<and> exp_down a e k \<le> e \<and> e - int k \<le> exp_down a e k \<and>
     (2 powi (exp_down a e k) \<le> a \<or> exp_down a e k = e - int k)"
proof (induction a e k rule: exp_down.induct)
  case (1 a e k)
  show ?case
  proof (cases "k = 0")
    case True
    with 1(2) show ?thesis by (subst (1 2 3 4 5) exp_down.simps) simp
  next
    case False
    show ?thesis
    proof (cases "2 powi e \<le> a")
      case True
      with False 1(2) show ?thesis by (subst (1 2 3 4 5) exp_down.simps) simp
    next
      case no: False
      then have "a < 2 powi (e - 1 + 1)" by simp
      from 1(1) [OF False no this] False no show ?thesis
        by (subst (1 2 3 4 5) exp_down.simps) (auto simp: of_nat_diff)
    qed
  qed
qed

lemma exponent_bounds:
  assumes "emin \<le> 0" and "0 \<le> emax" and "2 powi emin \<le> a" and "a < 2 powi (emax + 1)"
  shows "2 powi (exponent emin emax a) \<le> a \<and> a < 2 powi (exponent emin emax a + 1)"
proof (cases "1 \<le> a")
  case True
  then have "2 powi 0 \<le> a" by simp
  from exp_up_bounds [OF this, of "nat emax"] assms(2,4) True show ?thesis
    by (auto simp: exponent_def)
next
  case False
  then have "a < 2 powi (0 + 1)" by simp
  from exp_down_bounds [OF this, of "nat (- emin)"] assms(1,3) False show ?thesis
    by (auto simp: exponent_def)
qed

lemma round_to_rel_error:
  assumes p: "0 < p" and emin: "emin \<le> 0" and emax: "0 \<le> emax"
    and lo: "2 powi emin \<le> \<bar>x\<bar>" and hi: "\<bar>x\<bar> \<le> 2 powi emax"
  shows "\<exists>y. round_to p emin emax x = Fin y \<and> \<bar>y - x\<bar> \<le> \<bar>x\<bar> / 2 ^ p"
proof -
  define e where "e = exponent emin emax \<bar>x\<bar>"
  define q :: real where "q = 2 powi (e - int p + 1)"
  define y where "y = of_int (rne (x / q)) * q"
  have "(0::real) < 2 powi emin" by (simp add: zero_less_power_int)
  with lo have "0 < \<bar>x\<bar>" by linarith
  then have x0: "x \<noteq> 0" by simp
  have "(2::real) powi emax < 2 powi (emax + 1)" by (intro power_int_strict_increasing) simp_all
  with hi have "\<bar>x\<bar> < 2 powi (emax + 1)" by simp
  from exponent_bounds [OF emin emax lo this]
  have e: "2 powi e \<le> \<bar>x\<bar>" by (simp add: e_def)
  have q0: "0 < q" by (simp add: q_def zero_less_power_int)
  have "\<bar>y - x\<bar> = \<bar>of_int (rne (x / q)) - x / q\<bar> * q"
  proof -
    have "y - x = (of_int (rne (x / q)) - x / q) * q" using q0 by (simp add: y_def field_simps)
    then show ?thesis using q0 by (simp add: abs_mult)
  qed
  also have "\<dots> \<le> 1 / 2 * q" using rne_error [of "x / q"] q0 by (intro mult_right_mono) simp_all
  also have "1 / 2 * q = 2 powi e / 2 ^ p"
  proof -
    have "q = 2 powi e * 2 powi (- int p) * 2 powi 1"
      unfolding q_def by (simp add: power_int_add power_int_diff power_int_minus field_simps)
    then show ?thesis by (simp add: power_int_minus field_simps)
  qed
  also have "\<dots> \<le> \<bar>x\<bar> / 2 ^ p" using e by (simp add: divide_right_mono)
  finally have err: "\<bar>y - x\<bar> \<le> \<bar>x\<bar> / 2 ^ p" .
  have "(2::real) ^ p \<ge> 2" using p by (cases p) (simp_all add: self_le_power)
  then have "\<bar>x\<bar> / 2 ^ p \<le> \<bar>x\<bar> / 2" by (intro divide_left_mono) simp_all
  with err have "\<bar>y\<bar> \<le> \<bar>x\<bar> + \<bar>x\<bar> / 2" by linarith
  also have "\<dots> < 2 * 2 powi emax" using hi x0 by linarith
  also have "\<dots> = 2 powi (emax + 1)" by (simp add: power_int_add)
  finally have "\<not> 2 powi (emax + 1) \<le> \<bar>y\<bar>" by simp
  then have "round_to p emin emax x = Fin y"
    using x0 by (simp add: round_to_def Let_def e_def q_def y_def)
  with err show ?thesis by blast
qed

lemma pow_le_linear:
  fixes u :: real
  assumes "0 \<le> u" and "2 * real k * u \<le> 1"
  shows "(1 + u) ^ k \<le> 1 + 2 * real k * u"
  using assms(2)
proof (induction k)
  case 0
  then show ?case by simp
next
  case (Suc k)
  from Suc.prems assms(1) have small: "2 * real k * u \<le> 1"
    by (simp add: algebra_simps)
  from Suc.IH [OF small] assms(1)
  have "(1 + u) ^ Suc k \<le> (1 + u) * (1 + 2 * real k * u)"
    by (simp add: mult_left_mono)
  also have "\<dots> = 1 + 2 * real k * u + u + (2 * real k * u) * u" by (simp add: algebra_simps)
  also have "\<dots> \<le> 1 + 2 * real k * u + u + 1 * u"
    using small assms(1) by (intro add_left_mono mult_right_mono) simp_all
  also have "\<dots> = 1 + 2 * real (Suc k) * u" by (simp add: algebra_simps)
  finally show ?case .
qed

lemma round64_rel_error:
  assumes "1 / 2 ^ 1022 \<le> \<bar>x\<bar>" and "\<bar>x\<bar> \<le> 2 ^ 1023"
  shows "\<exists>y. round64 x = Fin y \<and> \<bar>y - x\<bar> \<le> \<bar>x\<bar> / 2 ^ 53"
proof -
  have "(2::real) powi (- 1022) = 1 / 2 ^ 1022" "(2::real) powi 1023 = 2 ^ 1023"
    by (simp_all add: power_int_minus_divide)
  with assms have "2 powi (- 1022) \<le> \<bar>x\<bar>" "\<bar>x\<bar> \<le> 2 powi 1023" by simp_all
  from round_to_rel_error [of 53 "- 1022" 1023 x, OF _ _ _ this] show ?thesis
    by (simp add: round64_def)
qed

lemma round32_rel_error:
  assumes "1 / 2 ^ 126 \<le> \<bar>x\<bar>" and "\<bar>x\<bar> \<le> 2 ^ 127"
  shows "\<exists>y. round32 x = Fin y \<and> \<bar>y - x\<bar> \<le> \<bar>x\<bar> / 2 ^ 24"
proof -
  have "(2::real) powi (- 126) = 1 / 2 ^ 126" "(2::real) powi 127 = 2 ^ 127"
    by (simp_all add: power_int_minus_divide)
  with assms have "2 powi (- 126) \<le> \<bar>x\<bar>" "\<bar>x\<bar> \<le> 2 powi 127" by simp_all
  from round_to_rel_error [of 24 "- 126" 127 x, OF _ _ _ this] show ?thesis
    by (simp add: round32_def)
qed

lemma round_to_0: "round_to p emin emax 0 = Fin 0"
  by (simp add: round_to_def)


subsection \<open>The mean error\<close>

text \<open>
  The sum in \<^verbatim>\<open>double\<close>: after \<open>k\<close> additions the computed sum \<open>s\<close> is within
  \<open>(1 + u) ^ k - 1\<close> of the exact sum \<open>a\<close>, relatively, for the unit roundoff \<open>u\<close>.
\<close>

lemma accumulate_bound_gen:
  fixes u lo hi L H :: real and N :: nat
  assumes u: "0 \<le> u"
    and rnd: "\<And>x. L \<le> x \<Longrightarrow> x \<le> H \<Longrightarrow> \<exists>y. round64 x = Fin y \<and> \<bar>y - x\<bar> \<le> u * x"
    and pow: "\<And>k. k \<le> N \<Longrightarrow> (1 + u) ^ k \<le> 3 / 2"
    and lo: "0 < lo" "L \<le> lo / 2" and hi: "0 \<le> hi" "(3 / 2 * real N + 1) * hi \<le> H"
  shows "(\<forall>e \<in> set es. e = 0 \<or> (lo \<le> e \<and> e \<le> hi)) \<Longrightarrow> 0 \<le> a \<Longrightarrow> a = 0 \<or> lo \<le> a \<Longrightarrow>
         a \<le> real k * hi \<Longrightarrow> \<bar>s - a\<bar> \<le> ((1 + u) ^ k - 1) * a \<Longrightarrow> k + length es \<le> N \<Longrightarrow>
         \<exists>s'. accumulate (map Fin es) (Fin s) = Fin s' \<and>
              \<bar>s' - (a + sum_list es)\<bar> \<le> ((1 + u) ^ (k + length es) - 1) * (a + sum_list es)"
proof (induction es arbitrary: a s k)
  case Nil
  then show ?case by simp
next
  case (Cons e es)
  define c where "c = (1 + u) ^ k - 1"
  from Cons.prems(6) have kN: "k \<le> N" and k1N: "Suc k + length es \<le> N" by simp_all
  have c0: "0 \<le> c" using u by (simp add: c_def)
  have c_half: "c \<le> 1 / 2" using pow [OF kN] by (simp add: c_def)
  from Cons.prems(1) have e: "e = 0 \<or> (lo \<le> e \<and> e \<le> hi)" by simp
  with lo(1) hi(1) have e0: "0 \<le> e" and e_hi: "e \<le> hi" by auto
  note a0 = Cons.prems(2)
  have diff: "\<bar>s - a\<bar> \<le> c * a" using Cons.prems(5) by (simp add: c_def)
  have "c * a \<le> 1 / 2 * a" using c_half a0 by (intro mult_right_mono) simp_all
  with diff have s_lo: "a / 2 \<le> s" and s_hi: "s \<le> 3 / 2 * a" by linarith+
  with a0 have s0: "0 \<le> s" by linarith
  define a' where "a' = a + e"
  have a'0: "0 \<le> a'" using a0 e0 by (simp add: a'_def)
  have a'lo: "a' = 0 \<or> lo \<le> a'" using Cons.prems(3) e a0 e0 lo(1) by (auto simp: a'_def)
  have a'hi: "a' \<le> real (Suc k) * hi" using Cons.prems(4) e_hi by (simp add: a'_def algebra_simps)
  have rest: "\<forall>e \<in> set es. e = 0 \<or> (lo \<le> e \<and> e \<le> hi)" using Cons.prems(1) by simp
  have "\<exists>y. fp_add (Fin s) (Fin e) = Fin y \<and> \<bar>y - a'\<bar> \<le> ((1 + u) ^ Suc k - 1) * a'"
  proof (cases "s + e = 0")
    case True
    with s0 e0 have "s = 0" "e = 0" by linarith+
    with s_lo a0 have "a = 0" by linarith
    with \<open>e = 0\<close> \<open>s = 0\<close> show ?thesis by (simp add: a'_def round64_def round_to_0)
  next
    case False
    with s0 e0 have pos: "0 < s + e" by linarith
    have "lo / 2 \<le> s + e"
    proof (cases "e = 0")
      case True
      with pos have "0 < s" by simp
      with s_hi have "a \<noteq> 0" by auto
      with Cons.prems(3) have "lo \<le> a" by simp
      with s_lo True show ?thesis by simp
    next
      case False
      with e have "lo \<le> e" by simp
      with s0 lo(1) show ?thesis by linarith
    qed
    with lo(2) have low: "L \<le> s + e" by linarith
    have "real k * hi \<le> real N * hi" using kN hi(1) by (intro mult_right_mono) simp_all
    then have "3 / 2 * (real k * hi) + hi \<le> (3 / 2 * real N + 1) * hi"
      by (simp add: algebra_simps)
    moreover have "s + e \<le> 3 / 2 * (real k * hi) + hi"
      using s_hi Cons.prems(4) e_hi by linarith
    ultimately have high: "s + e \<le> H" using hi(2) by linarith
    from rnd [OF low high] obtain y where y: "round64 (s + e) = Fin y"
      and err: "\<bar>y - (s + e)\<bar> \<le> u * (s + e)" by blast
    have "s + e \<le> a' + c * a" using diff unfolding a'_def by linarith
    then have "u * (s + e) \<le> u * (a' + c * a)" using u by (intro mult_left_mono)
    then have "u * (s + e) \<le> u * a' + u * (c * a)" by (simp add: algebra_simps)
    with err have first: "\<bar>y - (s + e)\<bar> \<le> u * a' + u * (c * a)" by linarith
    have second: "\<bar>y - a'\<bar> \<le> \<bar>y - (s + e)\<bar> + \<bar>s - a\<bar>" unfolding a'_def by linarith
    have "(1 + u) * (c * a) = c * a + u * (c * a)" by (simp add: algebra_simps)
    with first second diff have "\<bar>y - a'\<bar> \<le> u * a' + (1 + u) * (c * a)" by linarith
    also have "(1 + u) * (c * a) \<le> (1 + u) * (c * a')"
      using u c0 e0 by (intro mult_left_mono) (simp_all add: a'_def)
    also have "u * a' + (1 + u) * (c * a') = ((1 + u) ^ Suc k - 1) * a'"
      by (simp add: c_def algebra_simps)
    finally show ?thesis using y by simp
  qed
  then obtain y where y: "fp_add (Fin s) (Fin e) = Fin y"
    and err: "\<bar>y - a'\<bar> \<le> ((1 + u) ^ Suc k - 1) * a'" by blast
  from Cons.IH [OF rest a'0 a'lo a'hi err k1N] y show ?case
    by (simp add: a'_def add.assoc)
qed

lemma pow_u64_bound:
  assumes "k \<le> 2 ^ 24"
  shows "(1 + 1 / 2 ^ 53 :: real) ^ k \<le> 1 + 1 / 2 ^ 28"
proof -
  from assms have "real k \<le> 2 ^ 24" by (metis of_nat_le_iff of_nat_numeral of_nat_power)
  then have k: "2 * real k * (1 / 2 ^ 53) \<le> 1 / 2 ^ 28" by simp
  then have "2 * real k * (1 / 2 ^ 53) \<le> 1" by simp
  from pow_le_linear [OF _ this] k show ?thesis by simp
qed

lemma accumulate_rel_error:
  assumes es: "\<forall>e \<in> set es. e = 0 \<or> (1 / 2 ^ 100 \<le> e \<and> e \<le> 2 ^ 100)"
    and len: "length es \<le> 2 ^ 24"
  shows "\<exists>s. accumulate (map Fin es) (Fin 0) = Fin s \<and>
              \<bar>s - sum_list es\<bar> \<le> sum_list es / 2 ^ 28"
proof -
  have rnd: "\<exists>y. round64 x = Fin y \<and> \<bar>y - x\<bar> \<le> 1 / 2 ^ 53 * x"
    if "1 / 2 ^ 1022 \<le> x" "x \<le> 2 ^ 1023" for x :: real
  proof -
    from that(1) have "0 \<le> x" by (smt (verit) divide_nonneg_nonneg zero_le_power)
    with round64_rel_error [of x] that show ?thesis by simp
  qed
  have pow: "(1 + 1 / 2 ^ 53 :: real) ^ k \<le> 3 / 2" if "k \<le> 2 ^ 24" for k :: nat
    using pow_u64_bound [OF that] by simp
  have sum0: "0 \<le> sum_list es"
    using es by (intro sum_list_nonneg) (smt (verit) divide_nonneg_nonneg zero_le_power)
  from accumulate_bound_gen [of "1 / 2 ^ 53" "1 / 2 ^ 1022" "2 ^ 1023" "2 ^ 24" "1 / 2 ^ 100" "2 ^ 100"
      es 0 0 0, OF _ rnd pow]
    es len
  obtain s where s: "accumulate (map Fin es) (Fin 0) = Fin s"
    and err: "\<bar>s - sum_list es\<bar> \<le> ((1 + 1 / 2 ^ 53) ^ length es - 1) * sum_list es"
    by auto
  from pow_u64_bound [OF len] have "(1 + 1 / 2 ^ 53 :: real) ^ length es - 1 \<le> 1 / 2 ^ 28" by simp
  with sum0 have "((1 + 1 / 2 ^ 53) ^ length es - 1) * sum_list es \<le> 1 / 2 ^ 28 * sum_list es"
    by (intro mult_right_mono)
  with err s show ?thesis by auto
qed

lemma round32_count:
  assumes "n < 2 ^ 24"
  shows "round32 (real n) = Fin (real n)"
proof (cases "n = 0")
  case True
  then show ?thesis by (simp add: round32_def round_to_0)
next
  case False
  define x where "x = real n"
  define e where "e = exponent (- 126) 127 \<bar>x\<bar>"
  from False have x1: "1 \<le> x" by (simp add: x_def)
  from assms have "real n < 2 ^ 24" by (metis of_nat_less_iff of_nat_numeral of_nat_power)
  then have x24: "x < 2 powi 24" by (simp add: x_def)
  have "(2::real) powi (- 126) \<le> 2 powi 0" by (intro power_int_increasing) simp_all
  with x1 have lo: "2 powi (- 126) \<le> \<bar>x\<bar>" by simp
  have "(2::real) powi 24 \<le> 2 powi (127 + 1)" by (intro power_int_increasing) simp_all
  with x24 x1 have hi: "\<bar>x\<bar> < 2 powi (127 + 1)" by simp
  from exponent_bounds [of "- 126" 127 "\<bar>x\<bar>", OF _ _ lo hi]
  have "2 powi e \<le> \<bar>x\<bar>" by (simp add: e_def)
  with x24 x1 have "(2::real) powi e < 2 powi 24" by simp
  then have "e < 24" by (rule power_int_le_imp_less_exp [rotated]) simp_all
  define m where "m = nat (23 - e)"
  with \<open>e < 24\<close> have m: "e - int 24 + 1 = - int m" by (simp add: m_def)
  have q: "(2::real) powi (e - int 24 + 1) = 1 / 2 ^ m"
    unfolding m by (simp add: power_int_minus_divide)
  have "x / (1 / 2 ^ m) = of_int (int n * 2 ^ m)" by (simp add: x_def)
  then have "of_int (rne (x / (1 / 2 ^ m))) * (1 / 2 ^ m) = x"
    by (simp only: rne_of_int) (simp add: x_def)
  moreover have "\<not> 2 powi (127 + 1) \<le> \<bar>x\<bar>" using hi by simp
  moreover have "x \<noteq> 0" using x1 by simp
  ultimately have "round_to 24 (- 126) 127 x = Fin x"
    using q by (simp add: round_to_def Let_def e_def [symmetric])
  then show ?thesis by (simp add: round32_def x_def)
qed

lemma rel_chain:
  fixes a b c :: real
  assumes "0 \<le> b" and "0 \<le> \<beta>" and "\<bar>a - b\<bar> \<le> \<alpha> * b" and "\<bar>c - a\<bar> \<le> \<beta> * \<bar>a\<bar>"
  shows "\<bar>c - b\<bar> \<le> (\<alpha> + \<beta> + \<alpha> * \<beta>) * b"
proof -
  from assms(1,3) have "\<bar>a\<bar> \<le> b + \<alpha> * b" by linarith
  then have "\<beta> * \<bar>a\<bar> \<le> \<beta> * (b + \<alpha> * b)" using assms(2) by (intro mult_left_mono)
  with assms(3,4) have "\<bar>c - b\<bar> \<le> \<beta> * (b + \<alpha> * b) + \<alpha> * b" by linarith
  also have "\<dots> = (\<alpha> + \<beta> + \<alpha> * \<beta>) * b" by (simp add: algebra_simps)
  finally show ?thesis .
qed

lemma member_le_sum_list_real:
  fixes xs :: "real list"
  shows "\<forall>x \<in> set xs. 0 \<le> x \<Longrightarrow> x \<in> set xs \<Longrightarrow> x \<le> sum_list xs"
  by (induction xs) (auto simp: sum_list_nonneg add_increasing add_increasing2)

lemma sum_list_le_length:
  fixes xs :: "real list"
  shows "\<forall>x \<in> set xs. x \<le> h \<Longrightarrow> sum_list xs \<le> real (length xs) * h"
  by (induction xs) (auto simp: algebra_simps)

lemma mean_error_rel_error:
  assumes ne: "es \<noteq> []" and len: "length es < 2 ^ 24"
    and es: "\<forall>e \<in> set es. e = 0 \<or> (1 / 2 ^ 100 \<le> e \<and> e \<le> 2 ^ 100)"
  shows "\<exists>m. mean_error (map Fin es) = Fin m \<and>
              \<bar>m - sum_list es / real (length es)\<bar> \<le> sum_list es / real (length es) / 2 ^ 22"
proof -
  define n where "n = real (length es)"
  define S where "S = sum_list es"
  from ne have n1: "1 \<le> n" by (cases es) (simp_all add: n_def)
  from len have "real (length es) < 2 ^ 24" by (metis of_nat_less_iff of_nat_numeral of_nat_power)
  then have n24: "n \<le> 2 ^ 24" by (simp add: n_def)
  have nonneg: "\<forall>e \<in> set es. 0 \<le> e"
    using es by (smt (verit) divide_nonneg_nonneg zero_le_power)
  then have S0: "0 \<le> S" by (simp add: S_def sum_list_nonneg)
  from len have "length es \<le> 2 ^ 24" by simp
  from accumulate_rel_error [OF es this] obtain s
    where acc: "accumulate (map Fin es) (Fin 0) = Fin s" and s: "\<bar>s - S\<bar> \<le> S / 2 ^ 28"
    by (auto simp: S_def)
  have cnt: "round32 (real (length es)) = Fin n" using round32_count [OF len] by (simp add: n_def)
  have mean: "mean_error (map Fin es) = fp_div (round32 s) (Fin n)"
    by (simp add: mean_error_def acc cnt)
  show ?thesis
  proof (cases "S = 0")
    case True
    with s have "s = 0" by simp
    with mean n1 True show ?thesis
      by (simp add: round32_def round_to_0 S_def [symmetric] n_def [symmetric])
  next
    case False
    with S0 have Spos: "0 < S" by simp
    have "\<exists>e \<in> set es. e \<noteq> 0"
    proof (rule ccontr)
      assume "\<not> ?thesis"
      then have "\<forall>e \<in> set es. e = 0" by simp
      then have "sum_list es = 0" by (induction es) simp_all
      with False show False by (simp add: S_def)
    qed
    then obtain e where "e \<in> set es" and "e \<noteq> 0" by blast
    with es have "1 / 2 ^ 100 \<le> e" by auto
    define lo :: real where "lo = 1 / 2 ^ 100"
    define hi :: real where "hi = 2 ^ 124"
    have lo0: "0 < lo" by (simp add: lo_def)
    from member_le_sum_list_real [OF nonneg \<open>e \<in> set es\<close>] \<open>1 / 2 ^ 100 \<le> e\<close>
    have S_lo: "lo \<le> S" by (simp add: S_def lo_def)
    from es have "\<forall>e \<in> set es. e \<le> 2 ^ 100" by auto
    from sum_list_le_length [OF this] have "S \<le> n * 2 ^ 100" by (simp add: S_def n_def)
    also have "\<dots> \<le> 2 ^ 24 * 2 ^ 100" using n24 by (intro mult_right_mono) simp_all
    finally have S_hi: "S \<le> hi" by (simp add: hi_def)
    have "S / 2 ^ 28 \<le> S / 2" using S0 by (intro divide_left_mono) simp_all
    with s S_lo S_hi S0 have s_lo: "lo / 2 \<le> s" and s_hi: "s \<le> 2 * hi" by linarith+
    from s_lo lo0 have s0: "0 < s" by linarith
    have "1 / 2 ^ 126 \<le> lo / 2" "2 * hi \<le> 2 ^ 127" by (simp_all add: lo_def hi_def)
    with s_lo s_hi s0 have "1 / 2 ^ 126 \<le> \<bar>s\<bar>" and "\<bar>s\<bar> \<le> 2 ^ 127" by linarith+
    from round32_rel_error [OF this] obtain t
      where t: "round32 s = Fin t" and t_err: "\<bar>t - s\<bar> \<le> \<bar>s\<bar> / 2 ^ 24" by auto
    have "s / 2 ^ 24 \<le> s / 2" using s0 by (intro divide_left_mono) simp_all
    with t_err s0 s_lo s_hi have t_lo: "lo / 4 \<le> t" and t_hi: "t \<le> 4 * hi" by linarith+
    from t_lo lo0 have t0: "0 < t" by linarith
    have n0: "0 < n" using n1 by simp
    have "lo / 4 / 2 ^ 24 \<le> t / n" using t_lo n24 n0 lo0 by (intro frac_le) simp_all
    moreover have "lo / 4 / 2 ^ 24 = 1 / 2 ^ 126" by (simp add: lo_def)
    moreover have q0: "0 < t / n" using t0 n0 by simp
    ultimately have q_lo: "1 / 2 ^ 126 \<le> \<bar>t / n\<bar>" by linarith
    have "t / n \<le> t / 1" using n1 t0 by (intro divide_left_mono) simp_all
    moreover have "4 * hi \<le> 2 ^ 127" by (simp add: hi_def)
    ultimately have q_hi: "\<bar>t / n\<bar> \<le> 2 ^ 127" using t_hi q0 by linarith
    from round32_rel_error [OF q_lo q_hi] obtain m
      where m: "round32 (t / n) = Fin m" and m_err: "\<bar>m - t / n\<bar> \<le> \<bar>t / n\<bar> / 2 ^ 24" by auto
    from mean t m n0 have result: "mean_error (map Fin es) = Fin m" by simp
    define g :: real where "g = 1 / 2 ^ 28 + 1 / 2 ^ 24 + 1 / 2 ^ 28 * (1 / 2 ^ 24)"
    from s have first: "\<bar>s - S\<bar> \<le> 1 / 2 ^ 28 * S" by simp
    from t_err have second: "\<bar>t - s\<bar> \<le> 1 / 2 ^ 24 * \<bar>s\<bar>" by simp
    from rel_chain [of S "1 / 2 ^ 24" s "1 / 2 ^ 28" t, OF S0 _ first second]
    have "\<bar>t - S\<bar> \<le> g * S" by (simp add: g_def)
    then have "\<bar>t - S\<bar> / n \<le> g * S / n" using n0 by (intro divide_right_mono) simp_all
    moreover have "\<bar>t / n - S / n\<bar> = \<bar>t - S\<bar> / n"
      using n0 by (simp add: diff_divide_distrib [symmetric])
    ultimately have third: "\<bar>t / n - S / n\<bar> \<le> g * (S / n)" by simp
    from m_err have fourth: "\<bar>m - t / n\<bar> \<le> 1 / 2 ^ 24 * \<bar>t / n\<bar>" by simp
    have mu0: "0 \<le> S / n" using S0 n0 by simp
    from rel_chain [of "S / n" "1 / 2 ^ 24" "t / n" g m, OF mu0 _ third fourth]
    have "\<bar>m - S / n\<bar> \<le> (g + 1 / 2 ^ 24 + g * (1 / 2 ^ 24)) * (S / n)" by simp
    also have "g + 1 / 2 ^ 24 + g * (1 / 2 ^ 24) \<le> 1 / 2 ^ 22" by (simp add: g_def)
    then have "(g + 1 / 2 ^ 24 + g * (1 / 2 ^ 24)) * (S / n) \<le> 1 / 2 ^ 22 * (S / n)"
      using mu0 by (intro mult_right_mono)
    finally have "\<bar>m - S / n\<bar> \<le> S / n / 2 ^ 22" by simp
    with result show ?thesis by (auto simp: S_def n_def)
  qed
qed

lemma mean_error_Nil: "mean_error [] = NaN"
  by (simp add: mean_error_def round32_def round_to_0)

text \<open>
  The mean errors of the examples. In the last three a rounding is seen: the next
  \<^verbatim>\<open>float\<close> after \<^verbatim>\<open>4.0f\<close> is \<open>8388609 / 2097152\<close>, and \<^verbatim>\<open>0.1f\<close>, \<^verbatim>\<open>0.2f\<close> and \<^verbatim>\<open>0.3f\<close>
  are \<open>13421773 / 134217728\<close>, \<open>13421773 / 67108864\<close> and \<open>5033165 / 16777216\<close>.
\<close>

lemma mean_error_examples:
  "mean_error [Fin 20] = Fin 20" "mean_error [Fin 30] = Fin 30" "mean_error [Fin 1] = Fin 1"
  "mean_error [Fin 2, Fin 8] = Fin 5" "mean_error [Fin 3, Fin 4] = Fin (7 / 2)"
  "mean_error [Fin 4, Fin 4, Fin (8388609 / 2097152)] = Fin 4"
  "mean_error [Fin 16777216, Fin 1] = Fin 8388608"
  "mean_error [Fin (13421773 / 134217728), Fin (13421773 / 67108864), Fin (5033165 / 16777216)] =
     Fin (13421773 / 67108864)"
  by (simp_all add: mean_error_def fp_eval)

text \<open>
  Two errors equal to the greatest finite \<^verbatim>\<open>float\<close>: their sum is a \<^verbatim>\<open>double\<close>, its
  conversion to \<^verbatim>\<open>float\<close> overflows, and the mean error is an infinity.
\<close>

lemma mean_error_overflow:
  "mean_error [Fin ((2 ^ 24 - 1) * 2 ^ 104), Fin ((2 ^ 24 - 1) * 2 ^ 104)] = PInf"
  by (simp add: mean_error_def fp_eval)

text \<open>
  C8, as stated: the mean error of a face is the arithmetic mean, the sum divided by the
  count, of its errors. For the errors \<^verbatim>\<open>0.1f\<close>, \<^verbatim>\<open>0.2f\<close> and \<^verbatim>\<open>0.3f\<close> the sum, exact
  in \<^verbatim>\<open>double\<close>, is rounded when it is converted to \<^verbatim>\<open>float\<close> and the quotient is
  rounded again: the mean error is \<^verbatim>\<open>0.2f\<close>, which is not the mean of the three numbers.
\<close>

theorem mean_error_not_exact_mean:
  "mean_error [Fin (13421773 / 134217728), Fin (13421773 / 67108864), Fin (5033165 / 16777216)] =
     Fin (13421773 / 67108864) \<and>
   sum_list [13421773 / 134217728, 13421773 / 67108864, 5033165 / 16777216 :: real]
     / real (length [13421773 / 134217728, 13421773 / 67108864, 5033165 / 16777216 :: real]) =
     80530639 / 402653184 \<and>
   mean_error [Fin (13421773 / 134217728), Fin (13421773 / 67108864), Fin (5033165 / 16777216)] \<noteq>
     Fin (80530639 / 402653184)"
  by (simp add: mean_error_examples)

text \<open>
  C8, amended: for every predicted face whose sequence of errors is non-empty, the mean
  error of the face is the arithmetic mean of the errors up to the rounding of the
  floating-point computation (the sum in \<^verbatim>\<open>double\<close>, its conversion to \<^verbatim>\<open>float\<close> and the
  division in \<^verbatim>\<open>float\<close>): for fewer than \<open>2 ^ 24\<close> errors, each 0 or between
  \<open>2 ^ - 100\<close> and \<open>2 ^ 100\<close>, it is a finite number that differs from the sum divided
  by the count by at most that mean divided by \<open>2 ^ 22\<close>.
\<close>

theorem mean_error_near_arithmetic_mean:
  assumes "es \<noteq> []" and "length es < 2 ^ 24"
    and "\<forall>e \<in> set es. e = 0 \<or> (1 / 2 ^ 100 \<le> e \<and> e \<le> 2 ^ 100)"
  shows "\<exists>m. mean_error (map Fin es) = Fin m \<and>
              \<bar>m - sum_list es / real (length es)\<bar> \<le> sum_list es / real (length es) / 2 ^ 22"
  using assms by (rule mean_error_rel_error)

theorem mean_error_near_arithmetic_mean_witness:
  "[13421773 / 134217728, 13421773 / 67108864, 5033165 / 16777216 :: real] \<noteq> [] \<and>
   length [13421773 / 134217728, 13421773 / 67108864, 5033165 / 16777216 :: real] < 2 ^ 24 \<and>
   (1 / 2 ^ 100 \<le> (13421773 / 134217728 :: real) \<and> (13421773 / 134217728 :: real) \<le> 2 ^ 100) \<and>
   (1 / 2 ^ 100 \<le> (13421773 / 67108864 :: real) \<and> (13421773 / 67108864 :: real) \<le> 2 ^ 100) \<and>
   (1 / 2 ^ 100 \<le> (5033165 / 16777216 :: real) \<and> (5033165 / 16777216 :: real) \<le> 2 ^ 100) \<and>
   (\<exists>m. mean_error (map Fin [13421773 / 134217728, 13421773 / 67108864, 5033165 / 16777216]) = Fin m \<and>
        \<bar>m - 80530639 / 402653184\<bar> \<le> 80530639 / 402653184 / 2 ^ 22)"
  using mean_error_near_arithmetic_mean [of "[13421773 / 134217728, 13421773 / 67108864, 5033165 / 16777216]"]
  by simp

subsection \<open>The probing loop\<close>

lemma probe_free:
  "\<not> file_exists (dirpath @ to_string num @ ''_'' @ name) \<Longrightarrow>
     probe file_exists dirpath name num = Some (dirpath @ to_string num @ ''_'' @ name)"
  by (subst probe.simps) (simp add: Let_def)

lemma probe_taken:
  "file_exists (dirpath @ to_string num @ ''_'' @ name) \<Longrightarrow>
     probe file_exists dirpath name num = probe file_exists dirpath name (num + 1)"
  by (subst probe.simps) (simp add: Let_def)

lemma probe_Some_free_slot:
  "probe file_exists dirpath name num = Some p \<Longrightarrow>
     \<exists>w. \<not> file_exists (dirpath @ to_string w @ ''_'' @ name)"
  by (rule probe.raw_induct
        [where P = "\<lambda>file_exists dirpath name num p. \<exists>w. \<not> file_exists (dirpath @ to_string w @ ''_'' @ name)"])
     (auto simp: Let_def split: if_splits)

lemma probe_all_taken:
  assumes "\<forall>w. file_exists (dirpath @ to_string w @ ''_'' @ name)"
  shows "probe file_exists dirpath name num = None"
proof (cases "probe file_exists dirpath name num")
  case None
  then show ?thesis .
next
  case (Some p)
  from probe_Some_free_slot [of file_exists dirpath name num p, OF this] assms show ?thesis by blast
qed

lemma to_string_of_nat: "j < 2 ^ 32 \<Longrightarrow> to_string (of_nat j) = to_string_nat j"
  by (simp add: to_string_def unat_of_nat)

lemma probe_finds:
  assumes "n \<le> k" and "k < 2 ^ 32"
    and "\<not> file_exists (dirpath @ to_string_nat k @ ''_'' @ name)"
    and "\<forall>j. n \<le> j \<and> j < k \<longrightarrow> file_exists (dirpath @ to_string_nat j @ ''_'' @ name)"
  shows "probe file_exists dirpath name (of_nat n) = Some (dirpath @ to_string_nat k @ ''_'' @ name)"
  using assms
proof (induction "k - n" arbitrary: n)
  case 0
  then have "n = k" by simp
  with 0 show ?case by (simp add: probe_free to_string_of_nat)
next
  case (Suc d)
  then have lt: "n < k" by simp
  with Suc.prems have taken: "file_exists (dirpath @ to_string (of_nat n) @ ''_'' @ name)"
    by (simp add: to_string_of_nat)
  have "probe file_exists dirpath name (of_nat (Suc n)) = Some (dirpath @ to_string_nat k @ ''_'' @ name)"
    using Suc.hyps(2) Suc.prems lt by (intro Suc.hyps(1)) auto
  with probe_taken [of file_exists dirpath "of_nat n" name, OF taken] show ?case by (simp add: add.commute)
qed

lemma probe_returns_least:
  assumes "n < 2 ^ 32" and "\<not> file_exists (dirpath @ to_string_nat n @ ''_'' @ name)"
  shows "\<exists>k \<le> n. probe file_exists dirpath name 0 = Some (dirpath @ to_string_nat k @ ''_'' @ name) \<and>
           \<not> file_exists (dirpath @ to_string_nat k @ ''_'' @ name) \<and>
           (\<forall>j < k. file_exists (dirpath @ to_string_nat j @ ''_'' @ name))"
proof -
  let ?free = "\<lambda>j. \<not> file_exists (dirpath @ to_string_nat j @ ''_'' @ name)"
  define k where "k = (LEAST j. ?free j)"
  from assms(2) have free: "?free k" unfolding k_def by (rule LeastI)
  from assms(2) have le: "k \<le> n" unfolding k_def by (rule Least_le)
  have below: "\<not> ?free j" if "j < k" for j
    using that not_less_Least unfolding k_def by blast
  have "probe file_exists dirpath name (of_nat 0) = Some (dirpath @ to_string_nat k @ ''_'' @ name)"
    using le assms(1) free below by (intro probe_finds) auto
  with le free below show ?thesis by auto
qed

lemma probe_least:
  assumes "probe file_exists dirpath name 0 = Some p"
  shows "\<exists>n < 2 ^ 32. p = dirpath @ to_string_nat n @ ''_'' @ name \<and> \<not> file_exists p \<and>
           (\<forall>j < n. file_exists (dirpath @ to_string_nat j @ ''_'' @ name))"
proof -
  from probe_Some_free_slot [of file_exists dirpath name 0 p, OF assms] obtain w :: "32 word"
    where w: "\<not> file_exists (dirpath @ to_string w @ ''_'' @ name)" by blast
  have lt: "unat w < 2 ^ 32" using unsigned_less [of w] by simp
  from w have "\<not> file_exists (dirpath @ to_string_nat (unat w) @ ''_'' @ name)"
    by (simp add: to_string_def)
  from probe_returns_least [of "unat w" file_exists dirpath name, OF lt this] assms lt show ?thesis
    by (auto intro: le_less_trans)
qed

subsection \<open>Decimal digits\<close>

lemma digit_char_inj: "a < 10 \<Longrightarrow> b < 10 \<Longrightarrow> digit_char a = digit_char b \<Longrightarrow> a = b"
proof -
  assume "a < 10" "b < 10" "digit_char a = digit_char b"
  moreover have "distinct ''0123456789''" by simp
  ultimately show "a = b"
    unfolding digit_char_def by (simp add: nth_eq_iff_index_eq)
qed

lemma to_string_nat_not_Nil: "to_string_nat n \<noteq> []"
  by (subst to_string_nat.simps) simp

lemma to_string_nat_inj: "to_string_nat n = to_string_nat m \<Longrightarrow> n = m"
proof (induction n arbitrary: m rule: to_string_nat.induct)
  case (1 n)
  show ?case
  proof (cases "n < 10")
    case True
    then have n: "to_string_nat n = [digit_char n]" by (subst to_string_nat.simps) simp
    show ?thesis
    proof (cases "m < 10")
      case mlt: True
      then have "to_string_nat m = [digit_char m]" by (subst to_string_nat.simps) simp
      with n 1(2) True mlt show ?thesis by (auto dest: digit_char_inj)
    next
      case False
      then have "to_string_nat m = to_string_nat (m div 10) @ [digit_char (m mod 10)]"
        by (subst to_string_nat.simps) simp
      with n 1(2) to_string_nat_not_Nil [of "m div 10"] show ?thesis by simp
    qed
  next
    case False
    then have n: "to_string_nat n = to_string_nat (n div 10) @ [digit_char (n mod 10)]"
      by (subst to_string_nat.simps) simp
    show ?thesis
    proof (cases "m < 10")
      case True
      then have "to_string_nat m = [digit_char m]" by (subst to_string_nat.simps) simp
      with n 1(2) to_string_nat_not_Nil [of "n div 10"] show ?thesis by simp
    next
      case mge: False
      then have "to_string_nat m = to_string_nat (m div 10) @ [digit_char (m mod 10)]"
        by (subst to_string_nat.simps) simp
      with n 1(2) have "to_string_nat (n div 10) = to_string_nat (m div 10)"
        and d: "digit_char (n mod 10) = digit_char (m mod 10)" by simp_all
      with 1(1) False have "n div 10 = m div 10" by simp
      moreover from d have "n mod 10 = m mod 10" by (rule digit_char_inj [rotated 2]) simp_all
      ultimately show ?thesis by (metis div_mult_mod_eq)
    qed
  qed
qed

lemma candidate_inj:
  "inj (\<lambda>n. dirpath @ to_string_nat n @ ''_'' @ name)"
proof (rule injI)
  fix n m assume "dirpath @ to_string_nat n @ ''_'' @ name = dirpath @ to_string_nat m @ ''_'' @ name"
  then have eq: "to_string_nat n @ ''_'' @ name = to_string_nat m @ ''_'' @ name" by simp
  have "length (to_string_nat n) = length (to_string_nat m)"
    using arg_cong [OF eq, of length] by simp
  with eq have "to_string_nat n = to_string_nat m" by simp
  then show "n = m" by (rule to_string_nat_inj)
qed

lemma free_slot_exists:
  assumes fin: "finite {p. file_exists p}" and card: "card {p. file_exists p} < 2 ^ 32"
  shows "\<exists>n < 2 ^ 32. \<not> file_exists (dirpath @ to_string_nat n @ ''_'' @ name)"
proof (rule ccontr)
  let ?cand = "\<lambda>n::nat. dirpath @ to_string_nat n @ ''_'' @ name"
  assume "\<not> ?thesis"
  then have sub: "?cand ` {..< 2 ^ 32} \<subseteq> {p. file_exists p}" by auto
  have "inj_on ?cand {..< 2 ^ 32}"
    using candidate_inj [of dirpath name] by (rule inj_on_subset) simp
  then have "card (?cand ` {..< 2 ^ 32}) = 2 ^ 32" by (simp add: card_image)
  with card_mono [OF fin sub] card show False by simp
qed

subsection \<open>The file name\<close>

lemma find_last_of_None: "(find_last_of s c = None) = (c \<notin> set s)"
  by (induction s) (auto split: option.splits)

lemma find_last_of_Some:
  "find_last_of s c = Some i \<Longrightarrow> \<exists>dir. s = dir @ drop (Suc i) s \<and> last dir = c \<and> dir \<noteq> [] \<and> c \<notin> set (drop (Suc i) s)"
proof (induction s arbitrary: i)
  case Nil
  then show ?case by simp
next
  case (Cons x xs)
  show ?case
  proof (cases "find_last_of xs c")
    case None
    with Cons.prems have "x = c" and "i = 0" by (auto split: if_splits)
    moreover from None have "c \<notin> set xs" by (simp add: find_last_of_None)
    ultimately show ?thesis by (intro exI [of _ "[x]"]) simp
  next
    case (Some k)
    with Cons.prems have i: "i = Suc k" by simp
    from Cons.IH [OF Some] obtain dir
      where "xs = dir @ drop (Suc k) xs" "last dir = c" "dir \<noteq> []" "c \<notin> set (drop (Suc k) xs)"
      by blast
    with i show ?thesis by (intro exI [of _ "x # dir"]) simp
  qed
qed

lemma substr_is_basename:
  "\<exists>dir. s = dir @ substr_found_plus_1 s (find_last_of s CHR ''/'') \<and>
         (dir = [] \<or> last dir = CHR ''/'') \<and>
         CHR ''/'' \<notin> set (substr_found_plus_1 s (find_last_of s CHR ''/''))"
proof (cases "find_last_of s CHR ''/''")
  case None
  then show ?thesis by (simp add: substr_found_plus_1_def find_last_of_None [symmetric])
next
  case (Some i)
  from find_last_of_Some [OF this] show ?thesis
    using Some by (auto simp: substr_found_plus_1_def)
qed

subsection \<open>One iteration of \<^verbatim>\<open>save\<close>\<close>

lemma draw_on_draw_on: "draw_on (draw_on img a) b = draw_on img (a @ b)"
  by (simp add: draw_on_def)

lemma draw_on_Nil: "draw_on img [] = img"
  by (simp add: draw_on_def)

lemma save_face_not_hard:
  "\<not> is_hard gne this ann threshold face \<Longrightarrow>
     save_face gne this dirpath ann threshold radius thickness st face =
       Some (draw_on (fst st) (face_overlay gne this ann radius thickness face), snd st)"
  by (simp add: save_face_def is_hard_def face_overlay_def Let_def draw_on_draw_on)

lemma save_face_hard:
  "is_hard gne this ann threshold face \<Longrightarrow>
     save_face gne this dirpath ann threshold radius thickness st face =
       (case probe (fs_exists (snd st)) dirpath
               (substr_found_plus_1 (filename face) (find_last_of (filename face) CHR ''/'')) 0 of
          None \<Rightarrow> None
        | Some filepath \<Rightarrow>
            Some (draw_on (fst st) (face_overlay gne this ann radius thickness face),
                  (snd st)(filepath \<mapsto> draw_on (fst st) (face_overlay gne this ann radius thickness face))))"
  by (simp add: save_face_def is_hard_def face_overlay_def Let_def draw_on_draw_on split: option.split)

lemma save_face_hard_writes:
  assumes "is_hard gne this ann threshold face"
    and "save_face gne this dirpath ann threshold radius thickness (img, fs) face = Some (img', fs')"
  shows "img' = draw_on img (face_overlay gne this ann radius thickness face) \<and>
         (\<exists>n < 2 ^ 32.
            fs (dirpath @ to_string_nat n @ ''_'' @
                  substr_found_plus_1 (filename face) (find_last_of (filename face) CHR ''/'')) = None \<and>
            (\<forall>j < n. fs (dirpath @ to_string_nat j @ ''_'' @
                  substr_found_plus_1 (filename face) (find_last_of (filename face) CHR ''/'')) \<noteq> None) \<and>
            fs' = fs(dirpath @ to_string_nat n @ ''_'' @
                  substr_found_plus_1 (filename face) (find_last_of (filename face) CHR ''/'') \<mapsto> img'))"
proof -
  let ?name = "substr_found_plus_1 (filename face) (find_last_of (filename face) CHR ''/'')"
  from assms obtain p where p: "probe (fs_exists fs) dirpath ?name 0 = Some p"
    and img': "img' = draw_on img (face_overlay gne this ann radius thickness face)"
    and fs': "fs' = fs(p \<mapsto> img')"
    by (auto simp: save_face_hard split: option.splits)
  from probe_least [of "fs_exists fs" dirpath ?name p, OF p] img' fs' show ?thesis
    by (auto simp: fs_exists_def)
qed

subsection \<open>A face without errors\<close>

lemma not_greater_NaN: "\<not> fp_greater NaN threshold"
  by (cases threshold) (simp_all add: fp_greater_def)

lemma ex_constants:
  "marker_radius ex_ann = 3" "marker_thickness ex_ann = 2" "save_threshold ex_this = Fin 4"
  by (simp_all add: marker_radius_def marker_thickness_def roundf_def ex_ann_def
        save_threshold_def ex_this_def)

text \<open>
  C5, as stated: a predicted face with an empty sequence of errors gets an explicit
  unscoreable result, and no NaN is produced. The code has no such result: for the face
  \<open>ex_face_empty\<close> the mean error is \<^verbatim>\<open>0.0 / 0.0\<close>, a NaN, which \<^verbatim>\<open>save\<close> draws as the
  error text before it returns normally.
\<close>

theorem save_empty_errors_nan:
  "mean_error (snd (ex_errors ex_face_empty ex_ann (m_measure ex_this))) = NaN \<and>
   save ex_errors ex_this ''out/'' [ex_face_empty] ex_ann Map.empty =
     Some (\<lparr>source = ''faces/a.png'',
             overlay = [Circle (0, 0) 3 cyan_color (- 1), PutText NaN red_color]\<rparr>, Map.empty)"
  by (simp add: save_def save_face_def ex_constants Let_def mean_error_Nil ex_errors_def
        ex_face_empty_def fp_greater_def draw_on_def draw_parts_def imread_def)
     (simp add: ex_ann_def lm_visible_def cyan_color_def)

text \<open>
  C5, amended: for every predicted face with an empty sequence of errors, the mean
  error of the face is a NaN and there is no explicit unscoreable result: the
  iteration draws the NaN as the error text of the face and goes on.
\<close>

theorem save_face_empty_errors_nan:
  assumes "snd (gne face ann (m_measure this)) = []"
  shows "mean_error (snd (gne face ann (m_measure this))) = NaN \<and>
         save_face gne this dirpath ann threshold radius thickness (img, fs) face =
           Some (draw_on img (draw_parts green_color red_color radius thickness (parts face)
                              @ [PutText NaN red_color]), fs)"
  using assms
  by (simp add: save_face_def Let_def mean_error_Nil not_greater_NaN draw_on_draw_on)

theorem save_face_empty_errors_nan_witness:
  "snd (ex_errors ex_face_empty ex_ann (m_measure ex_this)) = [] \<and>
   mean_error (snd (ex_errors ex_face_empty ex_ann (m_measure ex_this))) = NaN \<and>
   save_face ex_errors ex_this ''out/'' ex_ann (Fin 4) 3 2 (imread ''faces/a.png'', Map.empty) ex_face_empty =
     Some (\<lparr>source = ''faces/a.png'', overlay = [PutText NaN red_color]\<rparr>, Map.empty)"
proof -
  have h: "snd (ex_errors ex_face_empty ex_ann (m_measure ex_this)) = []"
    by (simp add: ex_errors_def ex_face_empty_def)
  from save_face_empty_errors_nan
         [where gne = ex_errors and face = ex_face_empty and ann = ex_ann and this = ex_this
            and dirpath = "''out/''" and threshold = "Fin 4" and radius = 3 and thickness = 2
            and img = "imread ''faces/a.png''" and fs = Map.empty, OF h] h
  show ?thesis by (simp add: draw_on_def imread_def draw_parts_def ex_face_empty_def)
qed

text \<open>
  C9: for every predicted face with an empty sequence of errors, the iteration of
  \<^verbatim>\<open>save\<close> for the face completes: the comparison of the mean error with the threshold
  is false, whatever the threshold, no file is written and the file system is unchanged.
\<close>

theorem save_face_empty_errors_completes:
  assumes "snd (gne face ann (m_measure this)) = []"
  shows "\<not> fp_greater (mean_error (snd (gne face ann (m_measure this)))) threshold \<and>
         (\<exists>img'. save_face gne this dirpath ann threshold radius thickness (img, fs) face = Some (img', fs))"
proof -
  from assms have "\<not> is_hard gne this ann threshold face"
    by (simp add: is_hard_def mean_error_Nil not_greater_NaN)
  from save_face_not_hard [OF this, of dirpath radius thickness "(img, fs)"] this
  show ?thesis by (simp add: is_hard_def)
qed

theorem save_face_empty_errors_completes_witness:
  "snd (ex_errors ex_face_empty ex_ann (m_measure ex_this)) = [] \<and>
   \<not> fp_greater (mean_error (snd (ex_errors ex_face_empty ex_ann (m_measure ex_this)))) (Fin 4) \<and>
   (\<exists>img'. save_face ex_errors ex_this ''out/'' ex_ann (Fin 4) 3 2 (imread ''faces/a.png'', one_file) ex_face_empty =
      Some (img', one_file))"
proof -
  have h: "snd (ex_errors ex_face_empty ex_ann (m_measure ex_this)) = []"
    by (simp add: ex_errors_def ex_face_empty_def)
  from save_face_empty_errors_completes
         [where gne = ex_errors and face = ex_face_empty and ann = ex_ann and this = ex_this
            and dirpath = "''out/''" and threshold = "Fin 4" and radius = 3 and thickness = 2
            and img = "imread ''faces/a.png''" and fs = one_file, OF h] h
  show ?thesis by simp
qed

subsection \<open>The loop over the predicted faces\<close>

lemma save_face_changes_iff_hard:
  assumes "save_face gne this dirpath ann threshold radius thickness (img, fs) face = Some (img1, fs1)"
  shows "(fs1 \<noteq> fs) = is_hard gne this ann threshold face"
proof (cases "is_hard gne this ann threshold face")
  case True
  from save_face_hard_writes [OF True assms] obtain p where "fs p = None" and "fs1 = fs(p \<mapsto> img1)"
    by blast
  then have "fs1 p \<noteq> fs p" by simp
  with True show ?thesis by auto
next
  case False
  from save_face_not_hard [OF False, of dirpath radius thickness "(img, fs)"] assms False
  show ?thesis by simp
qed

lemma save_faces_written:
  assumes "save_faces gne this dirpath ann threshold radius thickness (img, fs) faces = Some (img', fs')"
  shows "\<exists>written.
           list_all2 (\<lambda>face w. (w \<noteq> None) = is_hard gne this ann threshold face) faces written \<and>
           distinct (paths_of written) \<and> set (paths_of written) \<inter> dom fs = {} \<and>
           dom fs' = dom fs \<union> set (paths_of written)"
  using assms
proof (induction faces arbitrary: img fs)
  case Nil
  then have "fs' = fs" by simp
  then show ?case by (intro exI [of _ "[]"]) simp
next
  case (Cons face faces)
  from Cons.prems obtain img1 fs1
    where step: "save_face gne this dirpath ann threshold radius thickness (img, fs) face = Some (img1, fs1)"
      and rest: "save_faces gne this dirpath ann threshold radius thickness (img1, fs1) faces = Some (img', fs')"
    by (auto split: option.splits)
  from Cons.IH [OF rest] obtain written
    where all: "list_all2 (\<lambda>face w. (w \<noteq> None) = is_hard gne this ann threshold face) faces written"
      and dist: "distinct (paths_of written)"
      and new: "set (paths_of written) \<inter> dom fs1 = {}"
      and dom: "dom fs' = dom fs1 \<union> set (paths_of written)"
    by blast
  show ?case
  proof (cases "is_hard gne this ann threshold face")
    case True
    from save_face_hard_writes [OF True step] obtain p where p: "fs p = None" "fs1 = fs(p \<mapsto> img1)"
      by blast
    with new have "p \<notin> set (paths_of written)" by auto
    with True all dist new dom p show ?thesis
      by (intro exI [of _ "Some p # written"]) auto
  next
    case False
    from save_face_not_hard [OF False, of dirpath radius thickness "(img, fs)"] step
    have "fs1 = fs" by simp
    with False all dist new dom show ?thesis
      by (intro exI [of _ "None # written"]) auto
  qed
qed

lemma save_faces_images:
  assumes "save_faces gne this dirpath ann threshold radius thickness (img, fs) faces = Some (img', fs')"
  shows "img' = draw_on img (concat (map (face_overlay gne this ann radius thickness) faces)) \<and>
         (\<forall>p. fs' p \<noteq> fs p \<longrightarrow>
            (\<exists>k < length faces. is_hard gne this ann threshold (faces ! k) \<and>
               fs' p = Some (draw_on img
                 (concat (map (face_overlay gne this ann radius thickness) (take (Suc k) faces))))))"
  using assms
proof (induction faces arbitrary: img fs)
  case Nil
  then show ?case by (simp add: draw_on_Nil)
next
  case (Cons face faces)
  let ?ov = "face_overlay gne this ann radius thickness"
  from Cons.prems obtain img1 fs1
    where step: "save_face gne this dirpath ann threshold radius thickness (img, fs) face = Some (img1, fs1)"
      and rest: "save_faces gne this dirpath ann threshold radius thickness (img1, fs1) faces = Some (img', fs')"
    by (auto split: option.splits)
  have img1: "img1 = draw_on img (?ov face)"
    using step save_face_hard_writes [OF _ step]
      save_face_not_hard [of gne this ann threshold face dirpath radius thickness "(img, fs)"]
    by (cases "is_hard gne this ann threshold face") auto
  from Cons.IH [OF rest]
  have final: "img' = draw_on img1 (concat (map ?ov faces))"
    and files: "\<And>p. fs' p \<noteq> fs1 p \<Longrightarrow>
        \<exists>k < length faces. is_hard gne this ann threshold (faces ! k) \<and>
          fs' p = Some (draw_on img1 (concat (map ?ov (take (Suc k) faces))))"
    by blast+
  have "\<exists>k < length (face # faces). is_hard gne this ann threshold ((face # faces) ! k) \<and>
          fs' p = Some (draw_on img (concat (map ?ov (take (Suc k) (face # faces)))))"
    if diff: "fs' p \<noteq> fs p" for p
  proof (cases "fs' p = fs1 p")
    case False
    from files [OF False] obtain k where "k < length faces"
      and "is_hard gne this ann threshold (faces ! k)"
      and "fs' p = Some (draw_on img1 (concat (map ?ov (take (Suc k) faces))))"
      by blast
    then show ?thesis
      by (intro exI [of _ "Suc k"]) (simp add: img1 draw_on_draw_on)
  next
    case True
    with diff have changed: "fs1 p \<noteq> fs p" by simp
    then have "fs1 \<noteq> fs" by auto
    with save_face_changes_iff_hard [OF step] have hard: "is_hard gne this ann threshold face" by simp
    from save_face_hard_writes [OF hard step] obtain q where "fs1 = fs(q \<mapsto> img1)" by blast
    with changed have "fs1 p = Some img1" by (auto split: if_splits)
    with True hard show ?thesis
      by (intro exI [of _ 0]) (simp add: img1)
  qed
  with final show ?case by (simp add: img1 draw_on_draw_on)
qed

lemma save_face_returns:
  assumes "finite (dom fs)" and "card (dom fs) < 2 ^ 32"
  shows "\<exists>img_a fs_a. save_face gne this dirpath ann threshold radius thickness (img, fs) face = Some (img_a, fs_a) \<and>
           finite (dom fs_a) \<and> card (dom fs_a) \<le> Suc (card (dom fs))"
proof (cases "is_hard gne this ann threshold face")
  case False
  from save_face_not_hard [OF False, of dirpath radius thickness "(img, fs)"] assms(1)
  show ?thesis by simp
next
  case True
  let ?name = "substr_found_plus_1 (filename face) (find_last_of (filename face) CHR ''/'')"
  have dom: "{p. fs_exists fs p} = dom fs" by (auto simp: fs_exists_def)
  from assms have "\<exists>n < 2 ^ 32. \<not> fs_exists fs (dirpath @ to_string_nat n @ ''_'' @ ?name)"
    by (intro free_slot_exists) (simp_all add: dom)
  then obtain n where "n < 2 ^ 32" and "\<not> fs_exists fs (dirpath @ to_string_nat n @ ''_'' @ ?name)"
    by blast
  from probe_returns_least [of n "fs_exists fs" dirpath ?name, OF this]
  obtain p where "probe (fs_exists fs) dirpath ?name 0 = Some p" and "fs p = None"
    by (auto simp: fs_exists_def)
  with save_face_hard [OF True, of dirpath radius thickness "(img, fs)"] assms(1)
  show ?thesis by (simp add: card_insert_if)
qed

lemma save_faces_returns:
  assumes "finite (dom fs)" and "card (dom fs) + length faces \<le> 2 ^ 32"
  shows "\<exists>st. save_faces gne this dirpath ann threshold radius thickness (img, fs) faces = Some st"
  using assms
proof (induction faces arbitrary: img fs)
  case Nil
  then show ?case by simp
next
  case (Cons face faces)
  then have "card (dom fs) < 2 ^ 32" by simp
  from save_face_returns [OF Cons.prems(1) this, of gne this dirpath ann threshold radius thickness img face]
  obtain img_a fs_a
    where step: "save_face gne this dirpath ann threshold radius thickness (img, fs) face = Some (img_a, fs_a)"
      and fin: "finite (dom fs_a)" and card: "card (dom fs_a) \<le> Suc (card (dom fs))"
    by blast
  from card Cons.prems(2) have "card (dom fs_a) + length faces \<le> 2 ^ 32" by simp
  from Cons.IH [OF fin this, of img_a] step show ?case by simp
qed

subsection \<open>Example runs\<close>

lemma ex_eval:
  "save_face ex_errors ex_this ''out/'' ex_ann (Fin 4) 3 2 (ex_img_gt, one_file) ex_face_far =
     Some (ex_img_far, one_file(''out/1_a.png'' \<mapsto> ex_img_far))"
  "save_face ex_errors ex_this ''out/'' ex_ann (Fin 4) 3 2 (ex_img_far, one_file(''out/1_a.png'' \<mapsto> ex_img_far)) ex_face_farther =
     Some (ex_img_far_farther, one_file(''out/1_a.png'' \<mapsto> ex_img_far, ''out/2_a.png'' \<mapsto> ex_img_far_farther))"
  "save_face ex_errors ex_this ''out/'' ex_ann (Fin 4) 3 2 (ex_img_far, one_file(''out/1_a.png'' \<mapsto> ex_img_far)) ex_face_near =
     Some (ex_img_far_near, one_file(''out/1_a.png'' \<mapsto> ex_img_far))"
  "save_face ex_errors ex_this ''out/'' ex_ann (Fin 4) 3 2 (ex_img_gt, Map.empty) ex_face_far =
     Some (ex_img_far, [''out/0_a.png'' \<mapsto> ex_img_far])"
  "save_face ex_errors ex_this ''out/'' ex_ann (Fin 4) 3 2 (ex_img_far, [''out/0_a.png'' \<mapsto> ex_img_far]) ex_face_farther =
     Some (ex_img_far_farther, [''out/0_a.png'' \<mapsto> ex_img_far, ''out/1_a.png'' \<mapsto> ex_img_far_farther])"
  by (simp_all add: save_face_def Let_def ex_errors_def ex_this_def ex_face_far_def ex_face_farther_def
        ex_face_near_def mean_error_examples fp_greater_def draw_on_def draw_parts_def
        ex_img_gt_def ex_img_far_def ex_img_far_farther_def ex_img_far_near_def
        substr_found_plus_1_def probe.simps fs_exists_def one_file_def
        to_string_def to_string_nat.simps digit_char_def)

lemma ex_image_gt:
  "draw_on (imread (filename ex_ann))
     (draw_parts cyan_color blue_color 3 2 (parts ex_ann)) = ex_img_gt"
  by (simp add: ex_ann_def imread_def draw_on_def draw_parts_def lm_visible_def ex_img_gt_def)

lemma ex_save:
  "save ex_errors ex_this ''out/'' [ex_face_far, ex_face_near] ex_ann one_file =
     Some (ex_img_far_near, one_file(''out/1_a.png'' \<mapsto> ex_img_far))"
  "save ex_errors ex_this ''out/'' [ex_face_far, ex_face_farther] ex_ann Map.empty =
     Some (ex_img_far_farther, [''out/0_a.png'' \<mapsto> ex_img_far, ''out/1_a.png'' \<mapsto> ex_img_far_farther])"
  by (simp_all add: save_def Let_def ex_image_gt ex_constants ex_eval)

lemma ex_errors_pairs:
  "snd (ex_errors ex_face_pair_high ex_ann (m_measure ex_this)) = map Fin [2, 8]"
  "snd (ex_errors ex_face_pair_low ex_ann (m_measure ex_this)) = map Fin [3, 4]"
  "snd (ex_errors ex_face_tie ex_ann (m_measure ex_this)) = map Fin [4, 4, 8388609 / 2097152]"
  by (simp_all add: ex_errors_def ex_face_pair_high_def ex_face_pair_low_def ex_face_tie_def)

lemma ex_eval_pairs:
  "save_face ex_errors ex_this ''out/'' ex_ann (Fin 4) 3 2 (ex_img_gt, one_file) ex_face_pair_high =
     Some (ex_img_high, one_file(''out/1_a.png'' \<mapsto> ex_img_high))"
  "save_face ex_errors ex_this ''out/'' ex_ann (Fin 4) 3 2
       (ex_img_high, one_file(''out/1_a.png'' \<mapsto> ex_img_high)) ex_face_pair_low =
     Some (ex_img_high_low, one_file(''out/1_a.png'' \<mapsto> ex_img_high))"
  "save_face ex_errors ex_this ''out/'' ex_ann (Fin 4) 3 2
       (ex_img_high_low, one_file(''out/1_a.png'' \<mapsto> ex_img_high)) ex_face_tie =
     Some (ex_img_high_low_tie, one_file(''out/1_a.png'' \<mapsto> ex_img_high))"
  by (simp_all add: save_face_def Let_def ex_errors_def ex_this_def ex_face_pair_high_def
        ex_face_pair_low_def ex_face_tie_def mean_error_examples fp_greater_def draw_on_def draw_parts_def
        ex_img_gt_def ex_img_high_def ex_img_high_low_def ex_img_high_low_tie_def
        substr_found_plus_1_def probe.simps fs_exists_def one_file_def
        to_string_def to_string_nat.simps digit_char_def)

lemma ex_save_pairs:
  "save ex_errors ex_this ''out/'' [ex_face_pair_high, ex_face_pair_low, ex_face_tie] ex_ann one_file =
     Some (ex_img_high_low_tie, one_file(''out/1_a.png'' \<mapsto> ex_img_high))"
  by (simp add: save_def Let_def ex_image_gt ex_constants ex_eval_pairs)

subsection \<open>Hard cases\<close>

text \<open>
  The decision of an iteration against the sum of the errors divided by their count:
  when the threshold is below that mean by more than one part in \<open>2 ^ 22\<close> a file is
  written, and when a file is written the threshold is below the mean increased by
  one part in \<open>2 ^ 22\<close>.
\<close>

lemma save_face_hard_near_mean:
  assumes errs: "snd (gne face ann (m_measure this)) = map Fin es"
    and es: "es \<noteq> []" "length es < 2 ^ 24"
      "\<forall>e \<in> set es. e = 0 \<or> (1 / 2 ^ 100 \<le> e \<and> e \<le> 2 ^ 100)"
    and step: "save_face gne this dirpath ann (Fin t) radius thickness (img, fs) face = Some (img_a, fs_a)"
  shows "(t < sum_list es / real (length es) * (1 - 1 / 2 ^ 22) \<longrightarrow> fs_a \<noteq> fs) \<and>
         (fs_a \<noteq> fs \<longrightarrow> t < sum_list es / real (length es) * (1 + 1 / 2 ^ 22))"
proof -
  define \<mu> where "\<mu> = sum_list es / real (length es)"
  from mean_error_rel_error [OF es] obtain m
    where m: "mean_error (map Fin es) = Fin m" and near: "\<bar>m - \<mu>\<bar> \<le> \<mu> / 2 ^ 22"
    by (auto simp: \<mu>_def)
  from save_face_changes_iff_hard [OF step] errs m have changed: "(fs_a \<noteq> fs) = (t < m)"
    by (simp add: is_hard_def fp_greater_def)
  define d where "d = \<mu> / 2 ^ 22"
  have lo: "\<mu> * (1 - 1 / 2 ^ 22) = \<mu> - d" and hi: "\<mu> * (1 + 1 / 2 ^ 22) = \<mu> + d"
    by (simp_all add: d_def algebra_simps)
  from near have "\<bar>m - \<mu>\<bar> \<le> d" unfolding d_def .
  then have "\<mu> - d \<le> m" "m \<le> \<mu> + d" by linarith+
  then have "\<mu> * (1 - 1 / 2 ^ 22) \<le> m" "m \<le> \<mu> * (1 + 1 / 2 ^ 22)"
    unfolding lo hi .
  with changed show ?thesis unfolding \<mu>_def [symmetric] by linarith
qed


text \<open>
  C7: a predicted face is a hard case, and its image is written, if and only if its
  mean error is strictly greater than the threshold. An iteration of \<^verbatim>\<open>save\<close> changes
  the file system exactly when the mean error of its face, the \<^verbatim>\<open>float\<close> of line 214, is
  greater than the threshold, whatever image and file system the faces before have
  left, and the change is the image of the iteration stored at a path where no file
  existed; and when \<^verbatim>\<open>save\<close> returns, one new file has been written for each predicted
  face with a mean error greater than the threshold, and none for the other faces. The
  call returns when the files that exist and the predicted faces are no more than
  \<open>2 ^ 32\<close> together. For fewer than \<open>2 ^ 24\<close> errors, each 0 or between \<open>2 ^ - 100\<close>
  and \<open>2 ^ 100\<close>, the decision is that of the sum of the errors divided by their count,
  up to one part in \<open>2 ^ 22\<close> of it. In the instance the faces have several errors: 2
  and 8, with the mean 5, give a file; 3 and 4, with the sum 7 and the mean 3.5, give
  none; and \<^verbatim>\<open>4.0f\<close>, \<^verbatim>\<open>4.0f\<close> and the next \<^verbatim>\<open>float\<close> give none, their mean error being
  \<^verbatim>\<open>4.0f\<close> although their sum divided by 3 is greater than 4, by less than one part in
  \<open>2 ^ 22\<close>.
\<close>

theorem hard_iff_mean_error_above_threshold:
  "(save_face gne this dirpath ann threshold radius thickness (img, fs) face = Some (img_a, fs_a) \<longrightarrow>
      (fs_a \<noteq> fs) = fp_greater (mean_error (snd (gne face ann (m_measure this)))) threshold \<and>
      (fs_a = fs \<or> (\<exists>p. fs p = None \<and> fs_a = fs(p \<mapsto> img_a)))) \<and>
   (save gne this dirpath faces ann fs = Some (img', fs') \<longrightarrow>
      (\<exists>written.
         list_all2 (\<lambda>face w. (w \<noteq> None) =
             fp_greater (mean_error (snd (gne face ann (m_measure this)))) (save_threshold this))
           faces written \<and>
         distinct (paths_of written) \<and> set (paths_of written) \<inter> dom fs = {} \<and>
         dom fs' = dom fs \<union> set (paths_of written))) \<and>
   (finite (dom fs) \<and> card (dom fs) + length faces \<le> 2 ^ 32 \<longrightarrow>
      (\<exists>st. save gne this dirpath faces ann fs = Some st)) \<and>
   (snd (gne face ann (m_measure this)) = map Fin es \<and> es \<noteq> [] \<and> length es < 2 ^ 24 \<and>
    (\<forall>e \<in> set es. e = 0 \<or> (1 / 2 ^ 100 \<le> e \<and> e \<le> 2 ^ 100)) \<and> threshold = Fin t \<and>
    save_face gne this dirpath ann threshold radius thickness (img, fs) face = Some (img_a, fs_a) \<longrightarrow>
      (t < sum_list es / real (length es) * (1 - 1 / 2 ^ 22) \<longrightarrow> fs_a \<noteq> fs) \<and>
      (fs_a \<noteq> fs \<longrightarrow> t < sum_list es / real (length es) * (1 + 1 / 2 ^ 22)))"
proof -
  have iteration:
    "save_face gne this dirpath ann threshold radius thickness (img, fs) face = Some (img_a, fs_a) \<longrightarrow>
      (fs_a \<noteq> fs) = fp_greater (mean_error (snd (gne face ann (m_measure this)))) threshold \<and>
      (fs_a = fs \<or> (\<exists>p. fs p = None \<and> fs_a = fs(p \<mapsto> img_a)))"
  proof (intro conjI impI)
    assume step: "save_face gne this dirpath ann threshold radius thickness (img, fs) face = Some (img_a, fs_a)"
    from save_face_changes_iff_hard [OF step]
    show "(fs_a \<noteq> fs) = fp_greater (mean_error (snd (gne face ann (m_measure this)))) threshold"
      by (simp add: is_hard_def)
    show "fs_a = fs \<or> (\<exists>p. fs p = None \<and> fs_a = fs(p \<mapsto> img_a))"
    proof (cases "is_hard gne this ann threshold face")
      case True
      from save_face_hard_writes [OF True step] show ?thesis by blast
    next
      case False
      with save_face_changes_iff_hard [OF step] show ?thesis by simp
    qed
  qed
  have call:
    "save gne this dirpath faces ann fs = Some (img', fs') \<longrightarrow>
      (\<exists>written.
         list_all2 (\<lambda>face w. (w \<noteq> None) =
             fp_greater (mean_error (snd (gne face ann (m_measure this)))) (save_threshold this))
           faces written \<and>
         distinct (paths_of written) \<and> set (paths_of written) \<inter> dom fs = {} \<and>
         dom fs' = dom fs \<union> set (paths_of written))"
  proof
    assume "save gne this dirpath faces ann fs = Some (img', fs')"
    then have "save_faces gne this dirpath ann (save_threshold this) (marker_radius ann) (marker_thickness ann)
        (draw_on (imread (filename ann))
           (draw_parts cyan_color blue_color (marker_radius ann) (marker_thickness ann) (parts ann)), fs)
        faces = Some (img', fs')"
      by (simp add: save_def Let_def)
    from save_faces_written [OF this]
    show "\<exists>written.
           list_all2 (\<lambda>face w. (w \<noteq> None) =
               fp_greater (mean_error (snd (gne face ann (m_measure this)))) (save_threshold this))
             faces written \<and>
           distinct (paths_of written) \<and> set (paths_of written) \<inter> dom fs = {} \<and>
           dom fs' = dom fs \<union> set (paths_of written)"
      by (simp add: is_hard_def)
  qed
  have returns:
    "finite (dom fs) \<and> card (dom fs) + length faces \<le> 2 ^ 32 \<longrightarrow>
      (\<exists>st. save gne this dirpath faces ann fs = Some st)"
  proof
    assume "finite (dom fs) \<and> card (dom fs) + length faces \<le> 2 ^ 32"
    then have "finite (dom fs)" and "card (dom fs) + length faces \<le> 2 ^ 32" by simp_all
    from save_faces_returns [OF this]
    show "\<exists>st. save gne this dirpath faces ann fs = Some st"
      by (simp add: save_def Let_def)
  qed
  have mean:
    "snd (gne face ann (m_measure this)) = map Fin es \<and> es \<noteq> [] \<and> length es < 2 ^ 24 \<and>
     (\<forall>e \<in> set es. e = 0 \<or> (1 / 2 ^ 100 \<le> e \<and> e \<le> 2 ^ 100)) \<and> threshold = Fin t \<and>
     save_face gne this dirpath ann threshold radius thickness (img, fs) face = Some (img_a, fs_a) \<longrightarrow>
       (t < sum_list es / real (length es) * (1 - 1 / 2 ^ 22) \<longrightarrow> fs_a \<noteq> fs) \<and>
       (fs_a \<noteq> fs \<longrightarrow> t < sum_list es / real (length es) * (1 + 1 / 2 ^ 22))"
  proof
    assume h: "snd (gne face ann (m_measure this)) = map Fin es \<and> es \<noteq> [] \<and> length es < 2 ^ 24 \<and>
     (\<forall>e \<in> set es. e = 0 \<or> (1 / 2 ^ 100 \<le> e \<and> e \<le> 2 ^ 100)) \<and> threshold = Fin t \<and>
     save_face gne this dirpath ann threshold radius thickness (img, fs) face = Some (img_a, fs_a)"
    then have errs: "snd (gne face ann (m_measure this)) = map Fin es"
      and es: "es \<noteq> []" "length es < 2 ^ 24" "\<forall>e \<in> set es. e = 0 \<or> (1 / 2 ^ 100 \<le> e \<and> e \<le> 2 ^ 100)"
      and step: "save_face gne this dirpath ann (Fin t) radius thickness (img, fs) face = Some (img_a, fs_a)"
      by auto
    from save_face_hard_near_mean [OF errs es step]
    show "(t < sum_list es / real (length es) * (1 - 1 / 2 ^ 22) \<longrightarrow> fs_a \<noteq> fs) \<and>
          (fs_a \<noteq> fs \<longrightarrow> t < sum_list es / real (length es) * (1 + 1 / 2 ^ 22))" .
  qed
  show ?thesis by (intro conjI) (rule iteration call returns mean)+
qed

theorem hard_iff_mean_error_above_threshold_witness:
  "save_face ex_errors ex_this ''out/'' ex_ann (Fin 4) 3 2 (ex_img_gt, one_file) ex_face_pair_high =
     Some (ex_img_high, one_file(''out/1_a.png'' \<mapsto> ex_img_high)) \<and>
   one_file(''out/1_a.png'' \<mapsto> ex_img_high) \<noteq> one_file \<and>
   fp_greater (mean_error (snd (ex_errors ex_face_pair_high ex_ann (m_measure ex_this)))) (Fin 4) \<and>
   snd (ex_errors ex_face_pair_high ex_ann (m_measure ex_this)) = map Fin [2, 8] \<and>
   [2, 8 :: real] \<noteq> [] \<and> length [2, 8 :: real] < 2 ^ 24 \<and>
   (1 / 2 ^ 100 \<le> (2 :: real) \<and> (2 :: real) \<le> 2 ^ 100) \<and>
   (1 / 2 ^ 100 \<le> (8 :: real) \<and> (8 :: real) \<le> 2 ^ 100) \<and>
   (4 :: real) < sum_list [2, 8] / real (length [2, 8 :: real]) * (1 - 1 / 2 ^ 22) \<and>
   (4 :: real) < sum_list [2, 8] / real (length [2, 8 :: real]) * (1 + 1 / 2 ^ 22) \<and>
   save_face ex_errors ex_this ''out/'' ex_ann (Fin 4) 3 2
       (ex_img_high, one_file(''out/1_a.png'' \<mapsto> ex_img_high)) ex_face_pair_low =
     Some (ex_img_high_low, one_file(''out/1_a.png'' \<mapsto> ex_img_high)) \<and>
   \<not> fp_greater (mean_error (snd (ex_errors ex_face_pair_low ex_ann (m_measure ex_this)))) (Fin 4) \<and>
   snd (ex_errors ex_face_pair_low ex_ann (m_measure ex_this)) = map Fin [3, 4] \<and>
   \<not> (4 :: real) < sum_list [3, 4] / real (length [3, 4 :: real]) * (1 + 1 / 2 ^ 22) \<and>
   save_face ex_errors ex_this ''out/'' ex_ann (Fin 4) 3 2
       (ex_img_high_low, one_file(''out/1_a.png'' \<mapsto> ex_img_high)) ex_face_tie =
     Some (ex_img_high_low_tie, one_file(''out/1_a.png'' \<mapsto> ex_img_high)) \<and>
   \<not> fp_greater (mean_error (snd (ex_errors ex_face_tie ex_ann (m_measure ex_this)))) (Fin 4) \<and>
   snd (ex_errors ex_face_tie ex_ann (m_measure ex_this)) = map Fin [4, 4, 8388609 / 2097152] \<and>
   (4 :: real) < sum_list [4, 4, 8388609 / 2097152] / real (length [4, 4, 8388609 / 2097152 :: real]) \<and>
   \<not> (4 :: real) < sum_list [4, 4, 8388609 / 2097152] / real (length [4, 4, 8388609 / 2097152 :: real])
         * (1 - 1 / 2 ^ 22) \<and>
   save ex_errors ex_this ''out/'' [ex_face_pair_high, ex_face_pair_low, ex_face_tie] ex_ann one_file =
     Some (ex_img_high_low_tie, one_file(''out/1_a.png'' \<mapsto> ex_img_high)) \<and>
   (\<exists>written.
      list_all2 (\<lambda>face w. (w \<noteq> None) =
          fp_greater (mean_error (snd (ex_errors face ex_ann (m_measure ex_this)))) (save_threshold ex_this))
        [ex_face_pair_high, ex_face_pair_low, ex_face_tie] written \<and>
      distinct (paths_of written) \<and> set (paths_of written) \<inter> dom one_file = {} \<and>
      dom (one_file(''out/1_a.png'' \<mapsto> ex_img_high)) = dom one_file \<union> set (paths_of written)) \<and>
   finite (dom one_file) \<and>
   card (dom one_file) + length [ex_face_pair_high, ex_face_pair_low, ex_face_tie] \<le> 2 ^ 32"
proof -
  have small: "finite (dom one_file)"
    "card (dom one_file) + length [ex_face_pair_high, ex_face_pair_low, ex_face_tie] \<le> 2 ^ 32"
    by (simp_all add: one_file_def)
  have range: "[2, 8 :: real] \<noteq> []" "length [2, 8 :: real] < 2 ^ 24"
    "\<forall>e \<in> set [2, 8 :: real]. e = 0 \<or> (1 / 2 ^ 100 \<le> e \<and> e \<le> 2 ^ 100)"
    "1 / 2 ^ 100 \<le> (2 :: real) \<and> (2 :: real) \<le> 2 ^ 100"
    "1 / 2 ^ 100 \<le> (8 :: real) \<and> (8 :: real) \<le> 2 ^ 100"
    by simp_all
  have margins:
    "(4 :: real) < sum_list [2, 8] / real (length [2, 8 :: real]) * (1 - 1 / 2 ^ 22)"
    "(4 :: real) < sum_list [2, 8] / real (length [2, 8 :: real]) * (1 + 1 / 2 ^ 22)"
    "\<not> (4 :: real) < sum_list [3, 4] / real (length [3, 4 :: real]) * (1 + 1 / 2 ^ 22)"
    "(4 :: real) < sum_list [4, 4, 8388609 / 2097152] / real (length [4, 4, 8388609 / 2097152 :: real])"
    "\<not> (4 :: real) < sum_list [4, 4, 8388609 / 2097152] / real (length [4, 4, 8388609 / 2097152 :: real])
         * (1 - 1 / 2 ^ 22)"
    by simp_all
  have decisions:
    "fp_greater (mean_error (snd (ex_errors ex_face_pair_high ex_ann (m_measure ex_this)))) (Fin 4)"
    "\<not> fp_greater (mean_error (snd (ex_errors ex_face_pair_low ex_ann (m_measure ex_this)))) (Fin 4)"
    "\<not> fp_greater (mean_error (snd (ex_errors ex_face_tie ex_ann (m_measure ex_this)))) (Fin 4)"
    by (simp_all add: ex_errors_pairs mean_error_examples fp_greater_def)
  note high = hard_iff_mean_error_above_threshold
    [where gne = ex_errors and this = ex_this and dirpath = "''out/''" and ann = ex_ann
       and threshold = "Fin 4" and t = 4 and es = "[2, 8]"
       and radius = 3 and thickness = 2 and img = ex_img_gt
       and fs = one_file and face = ex_face_pair_high and img_a = ex_img_high
       and fs_a = "one_file(''out/1_a.png'' \<mapsto> ex_img_high)"
       and faces = "[ex_face_pair_high, ex_face_pair_low, ex_face_tie]" and img' = ex_img_high_low_tie
       and fs' = "one_file(''out/1_a.png'' \<mapsto> ex_img_high)"]
  from high ex_errors_pairs(1) range(1-3) ex_eval_pairs(1)
  have changed: "one_file(''out/1_a.png'' \<mapsto> ex_img_high) \<noteq> one_file"
    using margins(1) by blast
  from high ex_save_pairs have "\<exists>written.
      list_all2 (\<lambda>face w. (w \<noteq> None) =
          fp_greater (mean_error (snd (ex_errors face ex_ann (m_measure ex_this)))) (save_threshold ex_this))
        [ex_face_pair_high, ex_face_pair_low, ex_face_tie] written \<and>
      distinct (paths_of written) \<and> set (paths_of written) \<inter> dom one_file = {} \<and>
      dom (one_file(''out/1_a.png'' \<mapsto> ex_img_high)) = dom one_file \<union> set (paths_of written)"
    by blast
  with changed small range(1,2,4,5) margins decisions ex_errors_pairs ex_eval_pairs ex_save_pairs
  show ?thesis by blast
qed

subsection \<open>The persisted image\<close>

text \<open>
  C3, as stated: the image persisted for a predicted face holds the ground truth and
  the skeleton and error text of that face only. The image is decoded once, before the
  loop: with two hard faces the image stored for the second one also holds the circle
  and the error text of the first.
\<close>

theorem persisted_image_not_fresh:
  "persisted (save ex_errors ex_this ''out/'' [ex_face_far, ex_face_farther] ex_ann Map.empty) ''out/1_a.png'' =
     Some \<lparr>source = ''faces/a.png'', overlay =
       [Circle (0, 0) 3 cyan_color (- 1),
        Circle (20, 0) 3 green_color (- 1), PutText (Fin 20) red_color,
        Circle (30, 0) 3 green_color (- 1), PutText (Fin 30) red_color]\<rparr> \<and>
   persisted (save ex_errors ex_this ''out/'' [ex_face_far, ex_face_farther] ex_ann Map.empty) ''out/1_a.png'' \<noteq>
     Some (annotated_fresh ex_errors ex_this ex_ann ex_face_farther)"
proof -
  have run: "persisted (save ex_errors ex_this ''out/'' [ex_face_far, ex_face_farther] ex_ann Map.empty) ''out/1_a.png'' =
      Some ex_img_far_farther"
    by (simp add: persisted_def ex_save)
  have fresh: "annotated_fresh ex_errors ex_this ex_ann ex_face_farther =
      \<lparr>source = ''faces/a.png'', overlay =
         [Circle (0, 0) 3 cyan_color (- 1),
          Circle (30, 0) 3 green_color (- 1), PutText (Fin 30) red_color]\<rparr>"
    by (simp add: annotated_fresh_def ex_constants)
       (simp add: face_overlay_def draw_on_def imread_def draw_parts_def ex_ann_def
          ex_face_farther_def lm_visible_def ex_errors_def mean_error_examples)
  show ?thesis unfolding run fresh by (simp add: ex_img_far_farther_def)
qed

text \<open>
  C3, amended: the overlays of all predicted faces of a call are drawn on one image,
  decoded once. An image persisted by \<^verbatim>\<open>save\<close> is the image persisted for a hard face:
  it holds the ground-truth skeleton and the skeletons and mean-error texts of that
  face and of every predicted face before it, and nothing of the faces after it. With a
  single predicted face it is the freshly decoded image with that face's overlays only.
\<close>

theorem persisted_image_accumulates:
  assumes "save gne this dirpath faces ann fs = Some (img', fs')" and "fs' p \<noteq> fs p"
  shows "(\<exists>k < length faces.
            fp_greater (mean_error (snd (gne (faces ! k) ann (m_measure this)))) (save_threshold this) \<and>
            fs' p = Some (draw_on (imread (filename ann))
              (draw_parts cyan_color blue_color (marker_radius ann) (marker_thickness ann) (parts ann)
               @ concat (map (face_overlay gne this ann (marker_radius ann) (marker_thickness ann))
                           (take (Suc k) faces))))) \<and>
         (length faces = 1 \<longrightarrow> fs' p = Some (annotated_fresh gne this ann (hd faces)))"
proof -
  let ?gt = "draw_parts cyan_color blue_color (marker_radius ann) (marker_thickness ann) (parts ann)"
  let ?ov = "face_overlay gne this ann (marker_radius ann) (marker_thickness ann)"
  from assms(1)
  have "save_faces gne this dirpath ann (save_threshold this) (marker_radius ann) (marker_thickness ann)
      (draw_on (imread (filename ann)) ?gt, fs) faces = Some (img', fs')"
    by (simp add: save_def Let_def)
  from save_faces_images [OF this] assms(2) obtain k where k: "k < length faces"
    and hard: "is_hard gne this ann (save_threshold this) (faces ! k)"
    and stored: "fs' p = Some (draw_on (draw_on (imread (filename ann)) ?gt)
                 (concat (map ?ov (take (Suc k) faces))))"
    by blast
  from stored have stored': "fs' p = Some (draw_on (imread (filename ann))
      (?gt @ concat (map ?ov (take (Suc k) faces))))"
    by (simp add: draw_on_draw_on)
  have "fs' p = Some (annotated_fresh gne this ann (hd faces))" if "length faces = 1"
  proof -
    from that obtain face where "faces = [face]" by (cases faces) auto
    with k stored' show ?thesis by (simp add: annotated_fresh_def)
  qed
  with k hard stored' show ?thesis by (auto simp: is_hard_def)
qed

theorem persisted_image_accumulates_witness:
  "save ex_errors ex_this ''out/'' [ex_face_far, ex_face_farther] ex_ann Map.empty =
     Some (ex_img_far_farther, [''out/0_a.png'' \<mapsto> ex_img_far, ''out/1_a.png'' \<mapsto> ex_img_far_farther]) \<and>
   [''out/0_a.png'' \<mapsto> ex_img_far, ''out/1_a.png'' \<mapsto> ex_img_far_farther] ''out/1_a.png'' \<noteq> Map.empty ''out/1_a.png'' \<and>
   (\<exists>k < length [ex_face_far, ex_face_farther].
      fp_greater (mean_error (snd (ex_errors ([ex_face_far, ex_face_farther] ! k) ex_ann (m_measure ex_this))))
        (save_threshold ex_this) \<and>
      [''out/0_a.png'' \<mapsto> ex_img_far, ''out/1_a.png'' \<mapsto> ex_img_far_farther] ''out/1_a.png'' =
        Some (draw_on (imread (filename ex_ann))
          (draw_parts cyan_color blue_color (marker_radius ex_ann) (marker_thickness ex_ann) (parts ex_ann)
           @ concat (map (face_overlay ex_errors ex_this ex_ann (marker_radius ex_ann) (marker_thickness ex_ann))
                       (take (Suc k) [ex_face_far, ex_face_farther])))))"
proof -
  have changed: "[''out/0_a.png'' \<mapsto> ex_img_far, ''out/1_a.png'' \<mapsto> ex_img_far_farther] ''out/1_a.png''
      \<noteq> Map.empty ''out/1_a.png''"
    by simp
  from persisted_image_accumulates
         [where gne = ex_errors and this = ex_this and dirpath = "''out/''"
            and faces = "[ex_face_far, ex_face_farther]" and ann = ex_ann and fs = Map.empty
            and img' = ex_img_far_farther
            and fs' = "[''out/0_a.png'' \<mapsto> ex_img_far, ''out/1_a.png'' \<mapsto> ex_img_far_farther]"
            and p = "''out/1_a.png''", OF ex_save(2) changed]
    ex_save(2) changed
  show ?thesis by blast
qed

subsection \<open>The path of a hard case\<close>

text \<open>
  C6: for a hard case that is persisted, the path is the target directory, then the
  counter \<open>n\<close> in decimal, an underscore and the file name after its last slash, where
  \<open>n\<close> is the least natural number at whose path no file exists; the image is stored
  there. A
  second hard case of the same file name, persisted next, is stored at the path of a
  greater counter, different from the first: both files exist afterwards, the first
  with its image, and every file that existed before is unchanged.
\<close>

theorem hard_case_path_least_and_fresh:
  assumes "fp_greater (mean_error (snd (gne face ann (m_measure this)))) threshold"
    and "save_face gne this dirpath ann threshold radius thickness (img, fs) face = Some (img_a, fs_a)"
  shows "\<exists>n < 2 ^ 32. fs (hard_case_path dirpath n (filename face)) = None \<and>
           (\<forall>j < n. fs (hard_case_path dirpath j (filename face)) \<noteq> None) \<and>
           fs_a = fs(hard_case_path dirpath n (filename face) \<mapsto> img_a) \<and>
           (\<exists>dir name. filename face = dir @ name \<and> (dir = [] \<or> last dir = CHR ''/'') \<and>
              CHR ''/'' \<notin> set name \<and>
              hard_case_path dirpath n (filename face) = dirpath @ to_string_nat n @ ''_'' @ name) \<and>
           (\<forall>face_b img_b fs_b.
              fp_greater (mean_error (snd (gne face_b ann (m_measure this)))) threshold \<and>
              filename face_b = filename face \<and>
              save_face gne this dirpath ann threshold radius thickness (img_a, fs_a) face_b = Some (img_b, fs_b) \<longrightarrow>
              (\<exists>m. n < m \<and>
                 hard_case_path dirpath m (filename face) \<noteq> hard_case_path dirpath n (filename face) \<and>
                 fs_a (hard_case_path dirpath m (filename face)) = None \<and>
                 fs_b = fs_a(hard_case_path dirpath m (filename face) \<mapsto> img_b) \<and>
                 fs_b (hard_case_path dirpath n (filename face)) = Some img_a \<and>
                 fs_b (hard_case_path dirpath m (filename face)) = Some img_b \<and>
                 (\<forall>q. fs q \<noteq> None \<longrightarrow> fs_b q = fs q)))"
proof -
  let ?path = "\<lambda>n. hard_case_path dirpath n (filename face)"
  from assms(1) have hard: "is_hard gne this ann threshold face" by (simp add: is_hard_def)
  from save_face_hard_writes [OF hard assms(2)] obtain n
    where bound: "n < 2 ^ 32"
      and free: "fs (?path n) = None" and below: "\<forall>j < n. fs (?path j) \<noteq> None"
      and fs_a: "fs_a = fs(?path n \<mapsto> img_a)"
    unfolding hard_case_path_def by blast
  from substr_is_basename [of "filename face"]
  have name: "\<exists>dir name. filename face = dir @ name \<and> (dir = [] \<or> last dir = CHR ''/'') \<and>
      CHR ''/'' \<notin> set name \<and> ?path n = dirpath @ to_string_nat n @ ''_'' @ name"
    unfolding hard_case_path_def by blast
  have second: "\<exists>m. n < m \<and> ?path m \<noteq> ?path n \<and> fs_a (?path m) = None \<and>
      fs_b = fs_a(?path m \<mapsto> img_b) \<and> fs_b (?path n) = Some img_a \<and>
      fs_b (?path m) = Some img_b \<and> (\<forall>q. fs q \<noteq> None \<longrightarrow> fs_b q = fs q)"
    if b: "fp_greater (mean_error (snd (gne face_b ann (m_measure this)))) threshold"
      "filename face_b = filename face"
      "save_face gne this dirpath ann threshold radius thickness (img_a, fs_a) face_b = Some (img_b, fs_b)"
    for face_b img_b fs_b
  proof -
    from b(1) have hard_b: "is_hard gne this ann threshold face_b" by (simp add: is_hard_def)
    from save_face_hard_writes [OF hard_b b(3)] b(2) obtain m
      where free_b: "fs_a (?path m) = None" and below_b: "\<forall>j < m. fs_a (?path j) \<noteq> None"
        and fs_b: "fs_b = fs_a(?path m \<mapsto> img_b)"
      unfolding hard_case_path_def by auto
    from fs_a have taken: "fs_a (?path n) = Some img_a" by simp
    with free_b have neq: "?path m \<noteq> ?path n" by auto
    have "\<not> m < n"
    proof
      assume "m < n"
      with below have "fs (?path m) \<noteq> None" by simp
      with fs_a free_b show False by (simp split: if_splits)
    qed
    moreover from neq have "m \<noteq> n" by auto
    ultimately have "n < m" by simp
    moreover have "fs_b q = fs q" if "fs q \<noteq> None" for q
    proof -
      from that free have "q \<noteq> ?path n" by auto
      moreover from that fs_a free_b have "q \<noteq> ?path m" by (auto split: if_splits)
      ultimately show ?thesis by (simp add: fs_b fs_a)
    qed
    ultimately show ?thesis using neq free_b fs_b taken by auto
  qed
  from bound free below fs_a name second show ?thesis by blast
qed

theorem hard_case_path_least_and_fresh_witness:
  "fp_greater (mean_error (snd (ex_errors ex_face_far ex_ann (m_measure ex_this)))) (Fin 4) \<and>
   save_face ex_errors ex_this ''out/'' ex_ann (Fin 4) 3 2 (ex_img_gt, one_file) ex_face_far =
     Some (ex_img_far, one_file(''out/1_a.png'' \<mapsto> ex_img_far)) \<and>
   hard_case_path ''out/'' 0 (filename ex_face_far) = ''out/0_a.png'' \<and>
   hard_case_path ''out/'' 1 (filename ex_face_far) = ''out/1_a.png'' \<and>
   hard_case_path ''out/'' 2 (filename ex_face_far) = ''out/2_a.png'' \<and>
   one_file ''out/0_a.png'' \<noteq> None \<and> one_file ''out/1_a.png'' = None \<and>
   fp_greater (mean_error (snd (ex_errors ex_face_farther ex_ann (m_measure ex_this)))) (Fin 4) \<and>
   filename ex_face_farther = filename ex_face_far \<and>
   save_face ex_errors ex_this ''out/'' ex_ann (Fin 4) 3 2
       (ex_img_far, one_file(''out/1_a.png'' \<mapsto> ex_img_far)) ex_face_farther =
     Some (ex_img_far_farther,
           one_file(''out/1_a.png'' \<mapsto> ex_img_far, ''out/2_a.png'' \<mapsto> ex_img_far_farther)) \<and>
   (\<exists>n. one_file (hard_case_path ''out/'' n (filename ex_face_far)) = None \<and>
        one_file(''out/1_a.png'' \<mapsto> ex_img_far) =
          one_file(hard_case_path ''out/'' n (filename ex_face_far) \<mapsto> ex_img_far))"
proof -
  have hard: "fp_greater (mean_error (snd (ex_errors ex_face_far ex_ann (m_measure ex_this)))) (Fin 4)"
    by (simp add: ex_errors_def ex_face_far_def mean_error_examples fp_greater_def)
  have hard_b: "fp_greater (mean_error (snd (ex_errors ex_face_farther ex_ann (m_measure ex_this)))) (Fin 4)"
    by (simp add: ex_errors_def ex_face_farther_def mean_error_examples fp_greater_def)
  have paths: "hard_case_path ''out/'' 0 (filename ex_face_far) = ''out/0_a.png''"
    "hard_case_path ''out/'' 1 (filename ex_face_far) = ''out/1_a.png''"
    "hard_case_path ''out/'' 2 (filename ex_face_far) = ''out/2_a.png''"
    by (simp_all add: hard_case_path_def ex_face_far_def substr_found_plus_1_def
          to_string_nat.simps digit_char_def)
  have files: "one_file ''out/0_a.png'' \<noteq> None" "one_file ''out/1_a.png'' = None"
    "filename ex_face_farther = filename ex_face_far"
    by (simp_all add: one_file_def ex_face_far_def ex_face_farther_def)
  from hard_case_path_least_and_fresh
         [where gne = ex_errors and this = ex_this and dirpath = "''out/''" and ann = ex_ann
            and threshold = "Fin 4" and radius = 3 and thickness = 2 and img = ex_img_gt
            and fs = one_file and face = ex_face_far and img_a = ex_img_far
            and fs_a = "one_file(''out/1_a.png'' \<mapsto> ex_img_far)", OF hard ex_eval(1)]
  have "\<exists>n. one_file (hard_case_path ''out/'' n (filename ex_face_far)) = None \<and>
        one_file(''out/1_a.png'' \<mapsto> ex_img_far) =
          one_file(hard_case_path ''out/'' n (filename ex_face_far) \<mapsto> ex_img_far)"
    by blast
  with hard hard_b paths files ex_eval(1) ex_eval(2) show ?thesis by blast
qed

subsection \<open>Termination of the probing loop\<close>

text \<open>
  C10, as stated: for every finite set of existing paths the probing loop terminates.
  When a file exists at each of the \<open>2 ^ 32\<close> paths the loop can form, a finite set,
  the counter wraps around and the loop does not end, and neither does \<^verbatim>\<open>save\<close> for a
  hard case of that name.
\<close>

theorem probe_full_directory_loops:
  "finite (dom (full_directory ''out/'' ''a.png'')) \<and>
   probe (fs_exists (full_directory ''out/'' ''a.png'')) ''out/'' ''a.png'' 0 = None \<and>
   save ex_errors ex_this ''out/'' [ex_face_far] ex_ann (full_directory ''out/'' ''a.png'') = None"
proof (intro conjI)
  have "dom (full_directory ''out/'' ''a.png'') = range (\<lambda>num. ''out/'' @ to_string num @ ''_'' @ ''a.png'')"
    by (auto simp: full_directory_def dom_def)
  then show "finite (dom (full_directory ''out/'' ''a.png''))" by simp
  show loops: "probe (fs_exists (full_directory ''out/'' ''a.png'')) ''out/'' ''a.png'' 0 = None"
    by (rule probe_all_taken) (simp add: fs_exists_def full_directory_def)
  have hard: "is_hard ex_errors ex_this ex_ann (Fin 4) ex_face_far"
    by (simp add: is_hard_def ex_errors_def ex_face_far_def mean_error_examples fp_greater_def)
  have name: "substr_found_plus_1 (filename ex_face_far) (find_last_of (filename ex_face_far) CHR ''/'') = ''a.png''"
    by (simp add: ex_face_far_def substr_found_plus_1_def)
  show "save ex_errors ex_this ''out/'' [ex_face_far] ex_ann (full_directory ''out/'' ''a.png'') = None"
    by (simp add: save_def Let_def ex_constants save_face_hard [OF hard] name loops)
qed

text \<open>
  C10, amended: for every finite set of fewer than \<open>2 ^ 32\<close> existing file paths, the
  probing loop of \<^verbatim>\<open>save\<close> terminates, and the path it returns is not in the set.
\<close>

theorem probe_terminates_below_capacity:
  assumes "finite (dom fs)" and "card (dom fs) < 2 ^ 32"
  shows "\<exists>p. probe (fs_exists fs) dirpath name 0 = Some p \<and> p \<notin> dom fs"
proof -
  have dom: "{p. fs_exists fs p} = dom fs" by (auto simp: fs_exists_def)
  from assms have "\<exists>n < 2 ^ 32. \<not> fs_exists fs (dirpath @ to_string_nat n @ ''_'' @ name)"
    by (intro free_slot_exists) (simp_all add: dom)
  then obtain n where "n < 2 ^ 32" and "\<not> fs_exists fs (dirpath @ to_string_nat n @ ''_'' @ name)"
    by blast
  from probe_returns_least [of n "fs_exists fs" dirpath name, OF this]
  show ?thesis by (auto simp: fs_exists_def)
qed

theorem probe_terminates_below_capacity_witness:
  "finite (dom one_file) \<and> card (dom one_file) < 2 ^ 32 \<and>
   probe (fs_exists one_file) ''out/'' ''a.png'' 0 = Some ''out/1_a.png'' \<and>
   ''out/1_a.png'' \<notin> dom one_file"
  using probe_terminates_below_capacity [of one_file "''out/''" "''a.png''"]
  by (simp add: one_file_def probe.simps fs_exists_def to_string_def to_string_nat.simps digit_char_def)

end
